theory Spec2Isabelle
  imports Complex_Main "HOL-Library.Word"
begin

section \<open>Numbers\<close>

text \<open>
  The TypeScript sources compute on \<^verbatim>\<open>number\<close> (IEEE 754 binary64), the generated
  fragment shader on \<^verbatim>\<open>highp float\<close>. Both are embedded as one type: a finite value is a
  real number, and the three special values of IEEE 754 are kept, with their arithmetic
  and their comparisons (every comparison with \<open>NaN\<close> is false, \<open>0 * Infinity\<close> is
  \<open>NaN\<close>, \<open>x / 0\<close> is an infinity or \<open>NaN\<close>).

  The operators \<open>+\<close>, \<open>-\<close>, \<open>*\<close> and \<open>/\<close> of the type are exact on finite values. The
  arithmetic of the TypeScript vector kernel, of the sphere test and of the edit handlers
  is built from them by rounding every result to binary64 (\<open>plus64\<close> and its companions
  below), so that overflow to an infinity, underflow to zero and the loss of low bits are
  part of the embedding. Two parts of the program keep the exact operators. One is the
  shader, whose \<^verbatim>\<open>highp float\<close> operations GLSL ES specifies only up to an error bound. The
  other is the CPU voxel traversal, which is compared with the shader's state by state.
  The properties stated of the traversals below are about the order of the comparisons,
  about special values and about cell coordinates, which are small integers; the parity of
  the two traversals is stated for rays on which no operation of either traversal rounds.

  There is one zero, which divides like \<open>+0\<close>. The sources divide by a possibly zero value
  only under \<^verbatim>\<open>Math.abs\<close> (\<^verbatim>\<open>Math.abs(1 / rd[0])\<close>) or after \<^verbatim>\<open>abs\<close> (\<^verbatim>\<open>1.0 / abs(rd)\<close>),
  where the sign of the zero cannot be seen.
\<close>

datatype number = Fin real | PInf | NInf | NaN

instantiation number :: "{plus, minus, uminus, times, inverse, abs, ord}"
begin

fun uminus_number :: "number \<Rightarrow> number" where
  "uminus_number (Fin a) = Fin (- a)"
| "uminus_number PInf = NInf"
| "uminus_number NInf = PInf"
| "uminus_number NaN = NaN"

fun plus_number :: "number \<Rightarrow> number \<Rightarrow> number" where
  "plus_number (Fin a) (Fin b) = Fin (a + b)"
| "plus_number NaN _ = NaN"
| "plus_number _ NaN = NaN"
| "plus_number PInf NInf = NaN"
| "plus_number NInf PInf = NaN"
| "plus_number PInf _ = PInf"
| "plus_number _ PInf = PInf"
| "plus_number NInf _ = NInf"
| "plus_number _ NInf = NInf"

definition minus_number :: "number \<Rightarrow> number \<Rightarrow> number" where
  "minus_number (a::number) b = a + (- b)"

fun times_number :: "number \<Rightarrow> number \<Rightarrow> number" where
  "times_number (Fin a) (Fin b) = Fin (a * b)"
| "times_number NaN _ = NaN"
| "times_number _ NaN = NaN"
| "times_number PInf (Fin b) = (if b = 0 then NaN else if 0 < b then PInf else NInf)"
| "times_number NInf (Fin b) = (if b = 0 then NaN else if 0 < b then NInf else PInf)"
| "times_number (Fin a) PInf = (if a = 0 then NaN else if 0 < a then PInf else NInf)"
| "times_number (Fin a) NInf = (if a = 0 then NaN else if 0 < a then NInf else PInf)"
| "times_number PInf PInf = PInf"
| "times_number PInf NInf = NInf"
| "times_number NInf PInf = NInf"
| "times_number NInf NInf = PInf"

fun divide_number :: "number \<Rightarrow> number \<Rightarrow> number" where
  "divide_number (Fin a) (Fin b) =
     (if b = 0 then (if a = 0 then NaN else if 0 < a then PInf else NInf)
      else Fin (a / b))"
| "divide_number NaN _ = NaN"
| "divide_number _ NaN = NaN"
| "divide_number (Fin a) PInf = Fin 0"
| "divide_number (Fin a) NInf = Fin 0"
| "divide_number PInf (Fin b) = (if 0 \<le> b then PInf else NInf)"
| "divide_number NInf (Fin b) = (if 0 \<le> b then NInf else PInf)"
| "divide_number PInf PInf = NaN"
| "divide_number PInf NInf = NaN"
| "divide_number NInf PInf = NaN"
| "divide_number NInf NInf = NaN"

definition inverse_number :: "number \<Rightarrow> number" where
  "inverse_number (a::number) = divide (Fin 1) a"

fun abs_number :: "number \<Rightarrow> number" where
  "abs_number (Fin a) = Fin \<bar>a\<bar>"
| "abs_number PInf = PInf"
| "abs_number NInf = PInf"
| "abs_number NaN = NaN"

fun less_number :: "number \<Rightarrow> number \<Rightarrow> bool" where
  "less_number (Fin a) (Fin b) = (a < b)"
| "less_number NaN _ = False"
| "less_number _ NaN = False"
| "less_number PInf _ = False"
| "less_number _ NInf = False"
| "less_number (Fin a) PInf = True"
| "less_number NInf (Fin b) = True"
| "less_number NInf PInf = True"

fun less_eq_number :: "number \<Rightarrow> number \<Rightarrow> bool" where
  "less_eq_number (Fin a) (Fin b) = (a \<le> b)"
| "less_eq_number NaN _ = False"
| "less_eq_number _ NaN = False"
| "less_eq_number PInf PInf = True"
| "less_eq_number NInf NInf = True"
| "less_eq_number PInf _ = False"
| "less_eq_number _ NInf = False"
| "less_eq_number (Fin a) PInf = True"
| "less_eq_number NInf (Fin b) = True"
| "less_eq_number NInf PInf = True"

instance ..

end

text \<open>The exact square root, \<open>NaN\<close> below zero; GLSL \<^verbatim>\<open>sqrt\<close>.\<close>

fun number_sqrt :: "number \<Rightarrow> number" where
  "number_sqrt (Fin a) = (if a < 0 then NaN else Fin (sqrt a))"
| "number_sqrt PInf = PInf"
| "number_sqrt NInf = NaN"
| "number_sqrt NaN = NaN"

subsection \<open>Rounding to binary64\<close>

text \<open>
  Round to nearest, ties to even, the rounding of every ECMAScript arithmetic operator.
  \<open>rne\<close> rounds a real number to an integer that way.
\<close>

definition rne :: "real \<Rightarrow> int" where
  "rne z = (let f = \<lfloor>z\<rfloor>; d = z - of_int f
            in if d < 1 / 2 then f else if 1 / 2 < d then f + 1 else if even f then f else f + 1)"

text \<open>
  The binary64 values from \<open>2 ^ e\<close> up to \<open>2 ^ (e + 1)\<close> are the multiples of
  \<open>2 ^ (e - 52)\<close> (53 significant bits); below \<open>2 ^ (- 1022)\<close> they are the multiples of
  \<open>2 ^ (- 1074)\<close> (the subnormal numbers). \<open>exponent64 x\<close> is the \<open>e\<close> that belongs to
  \<open>x\<close>, \<open>ulp64 x\<close> the distance between the binary64 values around \<open>x\<close>, and
  \<open>nearest64 x\<close> the multiple nearest to \<open>x\<close>.
\<close>

definition exponent64 :: "real \<Rightarrow> int" where
  "exponent64 x = max \<lfloor>log 2 \<bar>x\<bar>\<rfloor> (- 1022)"

definition ulp64 :: "real \<Rightarrow> real" where
  "ulp64 x = 2 powr (of_int (exponent64 x) - 52)"

definition nearest64 :: "real \<Rightarrow> real" where
  "nearest64 x = of_int (rne (x / ulp64 x)) * ulp64 x"

text \<open>A result that rounds to \<open>2 ^ 1024\<close> or beyond overflows to an infinity.\<close>

definition overflow64 :: real where
  "overflow64 = 2 ^ 1024"

definition round64 :: "real \<Rightarrow> number" where
  "round64 x =
     (let y = nearest64 x
      in if overflow64 \<le> y then PInf else if y \<le> - overflow64 then NInf else Fin y)"

fun rounded :: "number \<Rightarrow> number" where
  "rounded (Fin a) = round64 a"
| "rounded PInf = PInf"
| "rounded NInf = NInf"
| "rounded NaN = NaN"

text \<open>The operators \<^verbatim>\<open>+\<close>, \<^verbatim>\<open>-\<close>, \<^verbatim>\<open>*\<close> and \<^verbatim>\<open>/\<close> of TypeScript, and \<^verbatim>\<open>Math.sqrt\<close>.\<close>

definition plus64 :: "number \<Rightarrow> number \<Rightarrow> number" where
  "plus64 a b = rounded (a + b)"

definition minus64 :: "number \<Rightarrow> number \<Rightarrow> number" where
  "minus64 a b = rounded (a - b)"

definition times64 :: "number \<Rightarrow> number \<Rightarrow> number" where
  "times64 a b = rounded (a * b)"

definition divide64 :: "number \<Rightarrow> number \<Rightarrow> number" where
  "divide64 a b = rounded (a / b)"

definition Math_sqrt :: "number \<Rightarrow> number" where
  "Math_sqrt a = rounded (number_sqrt a)"

text \<open>
  A decimal literal of the TypeScript sources denotes the binary64 value nearest to it.
  Literals that are binary64 values themselves, such as \<open>0.5\<close> or \<open>100.0\<close>, are written
  with \<open>Fin\<close>.
\<close>

definition literal :: "real \<Rightarrow> number" where
  "literal x = round64 x"

text \<open>\<^verbatim>\<open>Math.floor\<close> and GLSL \<^verbatim>\<open>floor\<close>.\<close>

fun Math_floor :: "number \<Rightarrow> number" where
  "Math_floor (Fin a) = Fin (of_int \<lfloor>a\<rfloor>)"
| "Math_floor PInf = PInf"
| "Math_floor NInf = NInf"
| "Math_floor NaN = NaN"

text \<open>
  GLSL \<^verbatim>\<open>sign\<close>: 1, 0 or -1. On \<open>NaN\<close> none of its three comparisons holds; the value
  there is left to the implementation and taken as \<open>NaN\<close>.
\<close>

fun glsl_sign :: "number \<Rightarrow> number" where
  "glsl_sign (Fin a) = Fin (sgn a)"
| "glsl_sign PInf = Fin 1"
| "glsl_sign NInf = Fin (- 1)"
| "glsl_sign NaN = NaN"

text \<open>
  A \<^verbatim>\<open>number\<close> used as the index of a typed array names an element only when it is an
  integer from 0 up to the length; every other index reads \<^verbatim>\<open>undefined\<close> and ignores a write.
\<close>

fun array_index :: "nat \<Rightarrow> number \<Rightarrow> nat option" where
  "array_index n (Fin a) =
     (if a \<in> \<int> \<and> 0 \<le> a \<and> a < real n then Some (nat \<lfloor>a\<rfloor>) else None)"
| "array_index n PInf = None"
| "array_index n NInf = None"
| "array_index n NaN = None"

type_synonym Uint8Array = "8 word list"

definition ta_get :: "Uint8Array \<Rightarrow> number \<Rightarrow> 8 word option" where
  "ta_get a i = (case array_index (length a) i of None \<Rightarrow> None | Some k \<Rightarrow> Some (a ! k))"

definition ta_set :: "Uint8Array \<Rightarrow> number \<Rightarrow> 8 word \<Rightarrow> Uint8Array" where
  "ta_set a i v = (case array_index (length a) i of None \<Rightarrow> a | Some k \<Rightarrow> a[k := v])"

section \<open>types.ts\<close>

type_synonym Vector3 = "number \<times> number \<times> number"

datatype ToolType = BLOCK | LIGHT | DELETE

datatype QualityMode = LOW | MEDIUM | HIGH | ULTRA

definition GRID_SIZE :: nat where
  "GRID_SIZE = 32"

definition MIRROR_ID :: nat where
  "MIRROR_ID = 100"

definition PALETTE :: "Vector3 list" where
  "PALETTE =
    [(literal 0.9, literal 0.9, literal 0.9), (literal 0.8, literal 0.2, literal 0.2),
     (literal 0.2, literal 0.8, literal 0.2), (literal 0.2, literal 0.2, literal 0.8),
     (literal 0.9, literal 0.6, literal 0.1), (literal 0.9, literal 0.9, literal 0.2),
     (literal 0.6, literal 0.2, literal 0.8), (literal 0.2, literal 0.9, literal 0.9),
     (Fin 0.5, Fin 0.5, Fin 0.5), (literal 0.2, literal 0.2, literal 0.2),
     (Fin 0.5, Fin 0.0, Fin 0.0), (Fin 0.0, Fin 0.5, Fin 0.0),
     (literal 0.9, Fin 0.5, Fin 0.5), (literal 0.4, literal 0.2, Fin 0.0),
     (literal 0.6, literal 0.7, literal 0.8), (literal 0.1, literal 0.1, literal 0.1)]"

section \<open>lib/math.ts\<close>

fun add :: "Vector3 \<Rightarrow> Vector3 \<Rightarrow> Vector3" where
  "add (a0, a1, a2) (b0, b1, b2) = (plus64 a0 b0, plus64 a1 b1, plus64 a2 b2)"

fun sub :: "Vector3 \<Rightarrow> Vector3 \<Rightarrow> Vector3" where
  "sub (a0, a1, a2) (b0, b1, b2) = (minus64 a0 b0, minus64 a1 b1, minus64 a2 b2)"

fun dot :: "Vector3 \<Rightarrow> Vector3 \<Rightarrow> number" where
  "dot (a0, a1, a2) (b0, b1, b2) =
     plus64 (plus64 (times64 a0 b0) (times64 a1 b1)) (times64 a2 b2)"

definition len :: "Vector3 \<Rightarrow> number" where
  "len a = Math_sqrt (dot a a)"

text \<open>
  \<^verbatim>\<open>len === 0\<close> is strict equality of numbers; it differs from equality of values only on
  \<open>NaN\<close>, which is not equal to itself.
\<close>

definition strict_eq :: "number \<Rightarrow> number \<Rightarrow> bool" where
  "strict_eq a b = (a \<noteq> NaN \<and> b \<noteq> NaN \<and> a = b)"

fun normalize3 :: "Vector3 \<Rightarrow> Vector3" where
  "normalize3 (a0, a1, a2) =
     (let l = Math_sqrt (dot (a0, a1, a2) (a0, a1, a2))
      in if strict_eq l (Fin 0) then (Fin 0, Fin 0, Fin 0)
         else (divide64 a0 l, divide64 a1 l, divide64 a2 l))"

text \<open>The CPU sphere test, used for cursor picking; \<^verbatim>\<open>null\<close> is \<open>None\<close>.\<close>

definition intersectSphere :: "Vector3 \<Rightarrow> Vector3 \<Rightarrow> Vector3 \<Rightarrow> number \<Rightarrow> number option" where
  "intersectSphere ro rd center radius =
     (let oc = sub ro center;
          b = dot oc rd;
          c = minus64 (dot oc oc) (times64 radius radius);
          h = minus64 (times64 b b) c
      in if h < Fin 0 then None
         else let t = minus64 (- b) (Math_sqrt h)
              in if Fin 0 < t then Some t
                 else if Fin 0 < plus64 (- b) (Math_sqrt h) then Some (plus64 (- b) (Math_sqrt h))
                 else None)"

subsection \<open>The CPU voxel traversal (3D DDA)\<close>

text \<open>
  The mutable locals of the loop: the current cell \<^verbatim>\<open>x, y, z\<close>, the three \<^verbatim>\<open>sideDist\<close>
  accumulators, \<^verbatim>\<open>normal\<close> and \<^verbatim>\<open>dist\<close>. The shader's loop keeps the same locals under the
  names \<^verbatim>\<open>pos\<close>, \<^verbatim>\<open>tMax\<close>, \<^verbatim>\<open>normal\<close> and \<^verbatim>\<open>t\<close>, so one record serves both. The sums and
  products of the traversal are the exact ones, as in the shader's traversal.
\<close>

record March =
  cellX :: number
  cellY :: number
  cellZ :: number
  sideDistX :: number
  sideDistY :: number
  sideDistZ :: number
  curNormal :: Vector3
  curDist :: number

record Hit =
  pos :: Vector3
  normal :: Vector3
  voxelId :: "8 word"
  t :: number

text \<open>The body of the loop after the sample: advance along the axis the cascade selects.\<close>

fun cpu_advance :: "Vector3 \<Rightarrow> Vector3 \<Rightarrow> March \<Rightarrow> March" where
  "cpu_advance (stepX, stepY, stepZ) (deltaDistX, deltaDistY, deltaDistZ) s =
     (if sideDistX s < sideDistY s then
        (if sideDistX s < sideDistZ s then
           s\<lparr>curDist := sideDistX s, sideDistX := sideDistX s + deltaDistX,
             cellX := cellX s + stepX, curNormal := (- stepX, Fin 0, Fin 0)\<rparr>
         else
           s\<lparr>curDist := sideDistZ s, sideDistZ := sideDistZ s + deltaDistZ,
             cellZ := cellZ s + stepZ, curNormal := (Fin 0, Fin 0, - stepZ)\<rparr>)
      else
        (if sideDistY s < sideDistZ s then
           s\<lparr>curDist := sideDistY s, sideDistY := sideDistY s + deltaDistY,
             cellY := cellY s + stepY, curNormal := (Fin 0, - stepY, Fin 0)\<rparr>
         else
           s\<lparr>curDist := sideDistZ s, sideDistZ := sideDistZ s + deltaDistZ,
             cellZ := cellZ s + stepZ, curNormal := (Fin 0, Fin 0, - stepZ)\<rparr>))"

text \<open>
  The \<^verbatim>\<open>for\<close> loop, by recursion on the iterations that remain. \<open>None\<close> is \<^verbatim>\<open>null\<close>: the
  \<^verbatim>\<open>break\<close> and the exhausted loop both fall through to \<^verbatim>\<open>return null\<close>. A read outside the
  array is \<^verbatim>\<open>undefined\<close>, and \<^verbatim>\<open>undefined > 0\<close> is false.
\<close>

fun cpu_loop :: "Uint8Array \<Rightarrow> nat \<Rightarrow> Vector3 \<Rightarrow> Vector3 \<Rightarrow> nat \<Rightarrow> March \<Rightarrow> Hit option" where
  "cpu_loop grid gridSize stp delta 0 s = None"
| "cpu_loop grid gridSize stp delta (Suc n) s =
     (if cellX s < Fin 0 \<or> Fin (real gridSize) \<le> cellX s \<or>
         cellY s < Fin 0 \<or> Fin (real gridSize) \<le> cellY s \<or>
         cellZ s < Fin 0 \<or> Fin (real gridSize) \<le> cellZ s
      then
        (if Fin (real gridSize) * Fin 1.5 < curDist s then None
         else cpu_loop grid gridSize stp delta n (cpu_advance stp delta s))
      else
        (let idx = cellX s + cellY s * Fin (real gridSize)
                     + cellZ s * Fin (real gridSize) * Fin (real gridSize)
         in case ta_get grid idx of
              None \<Rightarrow> cpu_loop grid gridSize stp delta n (cpu_advance stp delta s)
            | Some voxel \<Rightarrow>
                if 0 < voxel
                then Some \<lparr>pos = (cellX s, cellY s, cellZ s), normal = curNormal s,
                            voxelId = voxel, t = curDist s\<rparr>
                else cpu_loop grid gridSize stp delta n (cpu_advance stp delta s)))"

text \<open>
  The declarations in front of the loop: the step per axis, \<^verbatim>\<open>deltaDist\<close>, and the locals
  the loop starts from.
\<close>

fun cpu_start :: "Vector3 \<Rightarrow> Vector3 \<Rightarrow> Vector3 \<times> Vector3 \<times> March" where
  "cpu_start (ro0, ro1, ro2) (rd0, rd1, rd2) =
     (let x = Math_floor ro0;
          y = Math_floor ro1;
          z = Math_floor ro2;
          stepX = (if Fin 0 < rd0 then Fin 1 else Fin (- 1));
          stepY = (if Fin 0 < rd1 then Fin 1 else Fin (- 1));
          stepZ = (if Fin 0 < rd2 then Fin 1 else Fin (- 1));
          deltaDistX = \<bar>Fin 1 / rd0\<bar>;
          deltaDistY = \<bar>Fin 1 / rd1\<bar>;
          deltaDistZ = \<bar>Fin 1 / rd2\<bar>;
          sdX = (if Fin 0 < rd0 then x + Fin 1 - ro0 else ro0 - x) * deltaDistX;
          sdY = (if Fin 0 < rd1 then y + Fin 1 - ro1 else ro1 - y) * deltaDistY;
          sdZ = (if Fin 0 < rd2 then z + Fin 1 - ro2 else ro2 - z) * deltaDistZ
      in ((stepX, stepY, stepZ), (deltaDistX, deltaDistY, deltaDistZ),
          \<lparr>cellX = x, cellY = y, cellZ = z,
           sideDistX = sdX, sideDistY = sdY, sideDistZ = sdZ,
           curNormal = (Fin 0, Fin 0, Fin 0), curDist = Fin 0\<rparr>))"

definition intersectVoxels :: "Vector3 \<Rightarrow> Vector3 \<Rightarrow> Uint8Array \<Rightarrow> nat \<Rightarrow> Hit option" where
  "intersectVoxels ro rd grid gridSize =
     (case cpu_start ro rd of
        (stp, delta, s) \<Rightarrow>
          (let maxSteps = gridSize * 2
           in cpu_loop grid gridSize stp delta maxSteps s))"

section \<open>lib/shader.ts: the sphere test of the fragment shader\<close>

text \<open>The operator \<^verbatim>\<open>-\<close> on \<^verbatim>\<open>vec3\<close> and the built-in \<^verbatim>\<open>dot\<close> of GLSL.\<close>

fun glsl_sub :: "Vector3 \<Rightarrow> Vector3 \<Rightarrow> Vector3" where
  "glsl_sub (a0, a1, a2) (b0, b1, b2) = (a0 - b0, a1 - b1, a2 - b2)"

fun glsl_dot :: "Vector3 \<Rightarrow> Vector3 \<Rightarrow> number" where
  "glsl_dot (a0, a1, a2) (b0, b1, b2) = a0 * b0 + a1 * b1 + a2 * b2"

text \<open>The GLSL routine returns a float; \<open>-1.0\<close> stands for no hit.\<close>

definition intersectSphere_glsl :: "Vector3 \<Rightarrow> Vector3 \<Rightarrow> Vector3 \<Rightarrow> number \<Rightarrow> number" where
  "intersectSphere_glsl ro rd center radius =
     (let oc = glsl_sub ro center;
          b = glsl_dot oc rd;
          c = glsl_dot oc oc - radius * radius;
          h = b * b - c
      in if h < Fin 0 then Fin (- 1) else - b - number_sqrt h)"

subsection \<open>The voxel traversal of the fragment shader\<close>

record VoxelHit =
  vh_t :: number
  vh_normal :: Vector3
  vh_id :: int

text \<open>
  \<^verbatim>\<open>texture(u_grid, (pos + 0.5) / 32.0).r\<close> followed by \<^verbatim>\<open>int(val * 255.0 + 0.5)\<close>. The texture is
  the \<^verbatim>\<open>R8\<close> volume that \<^verbatim>\<open>texImage3D\<close> fills from \<^verbatim>\<open>gridData\<close> (width x, height y, depth z,
  nearest filtering), so the fetch at an in-range cell gives back the byte stored for that
  cell. The sampler itself is not part of the sources; a fetch that names no texel is
  taken as 0.
\<close>

definition texel_id :: "Uint8Array \<Rightarrow> March \<Rightarrow> int" where
  "texel_id grid s =
     (case ta_get grid (cellX s + cellY s * Fin 32 + cellZ s * Fin 32 * Fin 32) of
        None \<Rightarrow> 0
      | Some v \<Rightarrow> uint v)"

fun gpu_advance :: "Vector3 \<Rightarrow> Vector3 \<Rightarrow> March \<Rightarrow> March" where
  "gpu_advance (step_x, step_y, step_z) (tDelta_x, tDelta_y, tDelta_z) s =
     (if sideDistX s < sideDistY s then
        (if sideDistX s < sideDistZ s then
           s\<lparr>curDist := sideDistX s, sideDistX := sideDistX s + tDelta_x,
             cellX := cellX s + step_x, curNormal := (- step_x, Fin 0.0, Fin 0.0)\<rparr>
         else
           s\<lparr>curDist := sideDistZ s, sideDistZ := sideDistZ s + tDelta_z,
             cellZ := cellZ s + step_z, curNormal := (Fin 0.0, Fin 0.0, - step_z)\<rparr>)
      else
        (if sideDistY s < sideDistZ s then
           s\<lparr>curDist := sideDistY s, sideDistY := sideDistY s + tDelta_y,
             cellY := cellY s + step_y, curNormal := (Fin 0.0, - step_y, Fin 0.0)\<rparr>
         else
           s\<lparr>curDist := sideDistZ s, sideDistZ := sideDistZ s + tDelta_z,
             cellZ := cellZ s + step_z, curNormal := (Fin 0.0, Fin 0.0, - step_z)\<rparr>))"

text \<open>
  The shader's loop. On a hit it returns \<^verbatim>\<open>VoxelHit(t, normal, id)\<close>; the cell \<^verbatim>\<open>pos\<close> at that
  moment is kept beside it, so that it can be compared with the cell the CPU reports.
  \<open>None\<close> stands for leaving the loop by \<^verbatim>\<open>break\<close> or by exhausting \<^verbatim>\<open>MAX_STEPS\<close>.
\<close>

fun gpu_loop :: "Uint8Array \<Rightarrow> Vector3 \<Rightarrow> Vector3 \<Rightarrow> nat \<Rightarrow> March \<Rightarrow> (Vector3 \<times> VoxelHit) option" where
  "gpu_loop grid stp tDelta 0 s = None"
| "gpu_loop grid stp tDelta (Suc n) s =
     (if cellX s < Fin 0.0 \<or> Fin 32.0 \<le> cellX s \<or>
         cellY s < Fin 0.0 \<or> Fin 32.0 \<le> cellY s \<or>
         cellZ s < Fin 0.0 \<or> Fin 32.0 \<le> cellZ s
      then
        (if Fin 100.0 < curDist s then None
         else let s' = gpu_advance stp tDelta s
              in if Fin 100.0 < curDist s' then None else gpu_loop grid stp tDelta n s')
      else
        (let id = texel_id grid s
         in if 0 < id
            then Some ((cellX s, cellY s, cellZ s),
                       \<lparr>vh_t = curDist s, vh_normal = curNormal s, vh_id = id\<rparr>)
            else let s' = gpu_advance stp tDelta s
                 in if Fin 100.0 < curDist s' then None else gpu_loop grid stp tDelta n s'))"

text \<open>The declarations in front of the shader's loop.\<close>

fun gpu_start :: "Vector3 \<Rightarrow> Vector3 \<Rightarrow> Vector3 \<times> Vector3 \<times> March" where
  "gpu_start (ro_x, ro_y, ro_z) (rd_x, rd_y, rd_z) =
     (let pos_x = Math_floor ro_x;
          pos_y = Math_floor ro_y;
          pos_z = Math_floor ro_z;
          signRd_x = glsl_sign rd_x;
          signRd_y = glsl_sign rd_y;
          signRd_z = glsl_sign rd_z;
          tDelta_x = Fin 1.0 / \<bar>rd_x\<bar>;
          tDelta_y = Fin 1.0 / \<bar>rd_y\<bar>;
          tDelta_z = Fin 1.0 / \<bar>rd_z\<bar>;
          tMax_x = (signRd_x * (pos_x - ro_x + Fin 0.5) + Fin 0.5) * tDelta_x;
          tMax_y = (signRd_y * (pos_y - ro_y + Fin 0.5) + Fin 0.5) * tDelta_y;
          tMax_z = (signRd_z * (pos_z - ro_z + Fin 0.5) + Fin 0.5) * tDelta_z
      in ((signRd_x, signRd_y, signRd_z), (tDelta_x, tDelta_y, tDelta_z),
          \<lparr>cellX = pos_x, cellY = pos_y, cellZ = pos_z,
           sideDistX = tMax_x, sideDistY = tMax_y, sideDistZ = tMax_z,
           curNormal = (Fin 0.0, Fin 0.0, Fin 0.0), curDist = Fin 0.0\<rparr>))"

text \<open>\<open>MAX_STEPS\<close> is the constant that \<^verbatim>\<open>getFragmentShaderSource\<close> bakes into the shader.\<close>

definition gpu_march :: "nat \<Rightarrow> Uint8Array \<Rightarrow> Vector3 \<Rightarrow> Vector3 \<Rightarrow> (Vector3 \<times> VoxelHit) option" where
  "gpu_march MAX_STEPS grid ro rd =
     (case gpu_start ro rd of (stp, tDelta, s) \<Rightarrow> gpu_loop grid stp tDelta MAX_STEPS s)"


section \<open>types.ts: lights\<close>

record Light =
  position :: Vector3
  color :: Vector3
  radius :: number
  intensity :: number

section \<open>App.tsx: the edit handlers\<close>

text \<open>
  The React state the handlers read and write. \<^verbatim>\<open>yaw\<close> and \<^verbatim>\<open>pitch\<close> are the two fields of
  \<^verbatim>\<open>cameraAngle\<close>; they are sums of mouse movements (the pitch clamped to \<open>[-1.5, 1.5]\<close>),
  hence finite. \<^verbatim>\<open>selectedColorIdx\<close> is only ever set to an index of \<^verbatim>\<open>PALETTE\<close>.
  The canvas keeps the camera a second time, in \<^verbatim>\<open>cameraPosRef\<close> and \<^verbatim>\<open>cameraAngleRef\<close>, and
  reports every change through \<^verbatim>\<open>onCameraMove\<close>; the two copies are one field here.
\<close>

record AppState =
  gridData :: Uint8Array
  lights :: "Light list"
  cameraPos :: Vector3
  yaw :: real
  pitch :: real
  selectedColorIdx :: nat
  isMirrorSelected :: bool
  tool :: ToolType

text \<open>The local \<^verbatim>\<open>idx\<close> of \<^verbatim>\<open>handleBlockAction\<close>.\<close>

fun idx :: "Vector3 \<Rightarrow> number" where
  "idx (p0, p1, p2) =
     plus64 (plus64 p0 (times64 p1 (Fin (real GRID_SIZE))))
            (times64 (times64 p2 (Fin (real GRID_SIZE))) (Fin (real GRID_SIZE)))"

text \<open>A store into the \<^verbatim>\<open>Uint8Array\<close> keeps the low eight bits of the value.\<close>

definition blockId :: "AppState \<Rightarrow> 8 word" where
  "blockId s = (if isMirrorSelected s then of_nat MIRROR_ID else of_nat (selectedColorIdx s + 1))"

definition handleBlockAction :: "AppState \<Rightarrow> Vector3 \<Rightarrow> Vector3 \<Rightarrow> AppState" where
  "handleBlockAction s hitPos nrm =
     (let newData =
            (if tool s = DELETE then
               (let i = idx hitPos
                in if Fin 0 \<le> i \<and> i < Fin (real (length (gridData s)))
                   then ta_set (gridData s) i 0 else gridData s)
             else if tool s = BLOCK then
               (let target = add hitPos nrm;
                    i = idx target
                in if Fin 0 \<le> fst target \<and> fst target < Fin (real GRID_SIZE) \<and>
                      Fin 0 \<le> fst (snd target) \<and> fst (snd target) < Fin (real GRID_SIZE) \<and>
                      Fin 0 \<le> snd (snd target) \<and> snd (snd target) < Fin (real GRID_SIZE)
                   then
                     (let p = add target (Fin 0.5, Fin 0.5, Fin 0.5)
                      in if Fin 1.0 < len (sub p (cameraPos s))
                         then ta_set (gridData s) i (blockId s) else gridData s)
                   else gridData s)
             else gridData s);
          newLights =
            (if tool s = LIGHT then
               (let target = add hitPos nrm;
                    newLight = \<lparr>position = add target (Fin 0.5, Fin 0.5, Fin 0.5),
                                color = PALETTE ! selectedColorIdx s,
                                radius = Fin 2.0, intensity = Fin 2.0\<rparr>
                in if length (lights s) < 10 then lights s @ [newLight] else lights s)
             else lights s)
      in s\<lparr>gridData := newData, lights := newLights\<rparr>)"

text \<open>\<^verbatim>\<open>prev.filter((_, i) => i !== lightIndex)\<close>, the index counted from \<open>k\<close>.\<close>

fun filter_index :: "int \<Rightarrow> int \<Rightarrow> 'a list \<Rightarrow> 'a list" where
  "filter_index lightIndex k [] = []"
| "filter_index lightIndex k (l # ls) =
     (if k \<noteq> lightIndex then l # filter_index lightIndex (k + 1) ls
      else filter_index lightIndex (k + 1) ls)"

definition handleLightClick :: "AppState \<Rightarrow> int \<Rightarrow> AppState" where
  "handleLightClick s lightIndex =
     (if tool s = DELETE then s\<lparr>lights := filter_index lightIndex 0 (lights s)\<rparr> else s)"

section \<open>components/RayTracerCanvas.tsx: picking\<close>

text \<open>
  The \<^verbatim>\<open>forEach\<close> over the lights: the pair is \<^verbatim>\<open>(closestLightIdx, minLightDist)\<close>, \<open>i\<close> the
  index of the light at the head of the list.
\<close>

fun closestLight :: "Vector3 \<Rightarrow> Vector3 \<Rightarrow> int \<Rightarrow> Light list \<Rightarrow> int \<times> number \<Rightarrow> int \<times> number" where
  "closestLight camPos camDir i [] acc = acc"
| "closestLight camPos camDir i (l # ls) (closestLightIdx, minLightDist) =
     closestLight camPos camDir (i + 1) ls
       (case intersectSphere camPos camDir (position l) (literal 0.2) of
          None \<Rightarrow> (closestLightIdx, minLightDist)
        | Some d \<Rightarrow>
            if Fin 0 < d \<and> d < minLightDist then (i, d) else (closestLightIdx, minLightDist))"

text \<open>
  ECMAScript leaves the precision of \<^verbatim>\<open>Math.sin\<close> and \<^verbatim>\<open>Math.cos\<close> to the implementation;
  they are taken as the correctly rounded functions. The properties below hold for every
  direction; the scenes use the values at 0 only.
\<close>

definition Math_sin :: "real \<Rightarrow> number" where
  "Math_sin x = round64 (sin x)"

definition Math_cos :: "real \<Rightarrow> number" where
  "Math_cos x = round64 (cos x)"

definition camDir :: "AppState \<Rightarrow> Vector3" where
  "camDir s =
     (let cp = Math_cos (pitch s); sp = Math_sin (pitch s);
          cy = Math_cos (yaw s); sy = Math_sin (yaw s)
      in (times64 sy cp, sp, times64 cy cp))"

definition performRaycastAction :: "AppState \<Rightarrow> AppState" where
  "performRaycastAction s =
     (let camPos = cameraPos s;
          (closestLightIdx, minLightDist) =
             closestLight camPos (camDir s) 0 (lights s) (- 1, Fin 100.0);
          hit = intersectVoxels camPos (camDir s) (gridData s) GRID_SIZE;
          voxelDist = (case hit of Some h \<Rightarrow> t h | None \<Rightarrow> Fin 1000.0)
      in if closestLightIdx \<noteq> - 1 \<and> minLightDist < voxelDist
         then handleLightClick s closestLightIdx
         else (case hit of
                 Some h \<Rightarrow> handleBlockAction s (pos h) (normal h)
               | None \<Rightarrow> s))"

section \<open>components/RayTracerCanvas.tsx: quality presets\<close>

record QualityConfig =
  scale :: number
  maxSteps :: nat
  maxBounces :: nat
  shadowSteps :: nat

fun getQualityConfig :: "QualityMode \<Rightarrow> QualityConfig" where
  "getQualityConfig ULTRA = \<lparr>scale = Fin 1.0, maxSteps = 1024, maxBounces = 32, shadowSteps = 128\<rparr>"
| "getQualityConfig HIGH = \<lparr>scale = Fin 1.0, maxSteps = 384, maxBounces = 8, shadowSteps = 64\<rparr>"
| "getQualityConfig MEDIUM = \<lparr>scale = Fin 0.75, maxSteps = 128, maxBounces = 3, shadowSteps = 32\<rparr>"
| "getQualityConfig LOW = \<lparr>scale = Fin 0.5, maxSteps = 64, maxBounces = 2, shadowSteps = 16\<rparr>"

text \<open>App.tsx, \<^verbatim>\<open>toggleQuality\<close>: the quality button cycles through the four levels.\<close>

fun toggleQuality :: "QualityMode \<Rightarrow> QualityMode" where
  "toggleQuality LOW = MEDIUM"
| "toggleQuality MEDIUM = HIGH"
| "toggleQuality HIGH = ULTRA"
| "toggleQuality ULTRA = LOW"

section \<open>Notions used to state the properties\<close>

subsection \<open>Binary64 values\<close>

text \<open>A real number is a binary64 value when rounding leaves it as it is.\<close>

definition double :: "real \<Rightarrow> bool" where
  "double r = (round64 r = Fin r)"

text \<open>A number that is finite and lies between two bounds.\<close>

definition bounded_by :: "number \<Rightarrow> real \<Rightarrow> real \<Rightarrow> bool" where
  "bounded_by a lo hi = (case a of Fin v \<Rightarrow> lo \<le> v \<and> v \<le> hi | _ \<Rightarrow> False)"

subsection \<open>The three moves of the traversal\<close>

text \<open>
  The four branches of the cascade have three distinct bodies, one per axis. They are named
  here so that a property can say along which axis the loop advanced.
\<close>

fun advanceX :: "Vector3 \<Rightarrow> Vector3 \<Rightarrow> March \<Rightarrow> March" where
  "advanceX (stepX, stepY, stepZ) (deltaDistX, deltaDistY, deltaDistZ) s =
     s\<lparr>curDist := sideDistX s, sideDistX := sideDistX s + deltaDistX,
       cellX := cellX s + stepX, curNormal := (- stepX, Fin 0, Fin 0)\<rparr>"

fun advanceY :: "Vector3 \<Rightarrow> Vector3 \<Rightarrow> March \<Rightarrow> March" where
  "advanceY (stepX, stepY, stepZ) (deltaDistX, deltaDistY, deltaDistZ) s =
     s\<lparr>curDist := sideDistY s, sideDistY := sideDistY s + deltaDistY,
       cellY := cellY s + stepY, curNormal := (Fin 0, - stepY, Fin 0)\<rparr>"

fun advanceZ :: "Vector3 \<Rightarrow> Vector3 \<Rightarrow> March \<Rightarrow> March" where
  "advanceZ (stepX, stepY, stepZ) (deltaDistX, deltaDistY, deltaDistZ) s =
     s\<lparr>curDist := sideDistZ s, sideDistZ := sideDistZ s + deltaDistZ,
       cellZ := cellZ s + stepZ, curNormal := (Fin 0, Fin 0, - stepZ)\<rparr>"

text \<open>
  The tie rule in the specification's words: advance along the axis with the smallest
  \<^verbatim>\<open>sideDist\<close>; among equal smallest values X wins, then Z.
\<close>

definition spec_advance :: "Vector3 \<Rightarrow> Vector3 \<Rightarrow> March \<Rightarrow> March" where
  "spec_advance stp delta s =
     (if sideDistX s \<le> sideDistY s \<and> sideDistX s \<le> sideDistZ s then advanceX stp delta s
      else if sideDistZ s \<le> sideDistY s then advanceZ stp delta s
      else advanceY stp delta s)"

subsection \<open>Cells and hits\<close>

text \<open>A cell of the grid, given by integer coordinates, as the vector the picking code passes on.\<close>

fun cellVec :: "int \<times> int \<times> int \<Rightarrow> Vector3" where
  "cellVec (i, j, k) = (Fin (of_int i), Fin (of_int j), Fin (of_int k))"

text \<open>The bounds test of the Block tool.\<close>

definition inGrid :: "Vector3 \<Rightarrow> bool" where
  "inGrid target =
     (Fin 0 \<le> fst target \<and> fst target < Fin (real GRID_SIZE) \<and>
      Fin 0 \<le> fst (snd target) \<and> fst (snd target) < Fin (real GRID_SIZE) \<and>
      Fin 0 \<le> snd (snd target) \<and> snd (snd target) < Fin (real GRID_SIZE))"

text \<open>
  A cell the loop has examined and left behind: outside the grid by the loop's own test, or
  sampled without a voxel.
\<close>

fun passed :: "Uint8Array \<Rightarrow> nat \<Rightarrow> Vector3 \<Rightarrow> bool" where
  "passed grid gridSize (x, y, z) =
     (if x < Fin 0 \<or> Fin (real gridSize) \<le> x \<or>
         y < Fin 0 \<or> Fin (real gridSize) \<le> y \<or>
         z < Fin 0 \<or> Fin (real gridSize) \<le> z
      then True
      else (case ta_get grid (x + y * Fin (real gridSize)
                                + z * Fin (real gridSize) * Fin (real gridSize)) of
              None \<Rightarrow> True
            | Some voxel \<Rightarrow> \<not> 0 < voxel))"

text \<open>
  The cell across the face with normal \<open>n\<close> of the cell \<open>c\<close>. For a cell of the grid and
  a face normal it is the vector that \<^verbatim>\<open>add\<close> computes.
\<close>

fun neighbour :: "Vector3 \<Rightarrow> Vector3 \<Rightarrow> Vector3" where
  "neighbour (x, y, z) (nx, ny, nz) = (x + nx, y + ny, z + nz)"

text \<open>A cell coordinate of the traversal is an integer, unless it is not finite.\<close>

definition whole :: "number \<Rightarrow> bool" where
  "whole a = (case a of Fin v \<Rightarrow> v \<in> \<int> | _ \<Rightarrow> True)"

text \<open>The normal of the traversal is zero or a unit vector along an axis.\<close>

definition unit_normal :: "Vector3 \<Rightarrow> bool" where
  "unit_normal n = (\<exists>a b c. n = cellVec (a, b, c) \<and> \<bar>a\<bar> \<le> 1 \<and> \<bar>b\<bar> \<le> 1 \<and> \<bar>c\<bar> \<le> 1)"

text \<open>The steps \<^verbatim>\<open>stepX\<close>, \<^verbatim>\<open>stepY\<close>, \<^verbatim>\<open>stepZ\<close> of the CPU traversal are 1 or -1.\<close>

definition unit_steps :: "Vector3 \<Rightarrow> bool" where
  "unit_steps stp = (\<exists>a b c. stp = (Fin a, Fin b, Fin c) \<and> (a = 1 \<or> a = - 1) \<and>
                       (b = 1 \<or> b = - 1) \<and> (c = 1 \<or> c = - 1))"







text \<open>
  A real number that is a binary32 value: 24 significant bits and an exponent of the
  format. Every such number is a binary64 value as well. An operation of IEEE 754 whose exact
  result is a value of the format returns that value.
\<close>

definition single :: "real \<Rightarrow> bool" where
  "single r = (\<exists>e\<in>{- 149..104::int}. \<exists>m\<in>{- (2 ^ 24) <..< 2 ^ 24 :: int}.
                 r = of_int m * 2 powr of_int e)"







subsection \<open>Scenes\<close>

text \<open>An empty grid of side 32, and grids with one or two voxels of palette id 9.\<close>

definition emptyGrid :: Uint8Array where
  "emptyGrid = replicate 32768 0"

text \<open>A voxel in cell \<open>(1, 0, 0)\<close>.\<close>

definition gridAhead :: Uint8Array where
  "gridAhead = emptyGrid[1 := 9]"

text \<open>Voxels in the cells \<open>(1, 0, 0)\<close> and \<open>(0, 1, 0)\<close>.\<close>

definition gridCorner :: Uint8Array where
  "gridCorner = emptyGrid[1 := 9, 32 := 9]"


text \<open>A state whose collection holds ten lights, with the Light tool selected.\<close>

definition sceneTenLights :: AppState where
  "sceneTenLights =
     \<lparr>gridData = emptyGrid,
      lights = replicate 10 \<lparr>position = (Fin 16, Fin 12, Fin 16), color = (Fin 1, Fin 1, Fin 1),
                               radius = Fin 2.0, intensity = Fin 3.0\<rparr>,
      cameraPos = (Fin 16, Fin 8, Fin 4), yaw = 0, pitch = 0,
      selectedColorIdx = 0, isMirrorSelected = False, tool = LIGHT\<rparr>"

text \<open>A camera looking along +z at the marker of a single light, four units ahead.\<close>

definition sceneLightAhead :: AppState where
  "sceneLightAhead =
     \<lparr>gridData = emptyGrid,
      lights = [\<lparr>position = (Fin 16, Fin 8, Fin 20), color = (Fin 1, Fin 1, Fin 1),
                 radius = Fin 2.0, intensity = Fin 3.0\<rparr>],
      cameraPos = (Fin 16, Fin 8, Fin 16), yaw = 0, pitch = 0,
      selectedColorIdx = 0, isMirrorSelected = False, tool = DELETE\<rparr>"


text \<open>A voxel in cell \<open>(0, 0, 1)\<close>.\<close>

definition gridAbove :: Uint8Array where
  "gridAbove = emptyGrid[1024 := 9]"

text \<open>
  A camera in the cell \<open>(8, 0, 4)\<close> looking along +z at a voxel in the cell \<open>(8, 0, 8)\<close>,
  with the two lights of the initial scene and the Block tool selected.
\<close>

definition sceneBlock :: AppState where
  "sceneBlock =
     \<lparr>gridData = emptyGrid[8200 := 15],
      lights = [\<lparr>position = (Fin 16, Fin 12, Fin 16), color = (Fin 1, Fin 1, Fin 1),
                 radius = Fin 2.0, intensity = Fin 3.0\<rparr>,
                \<lparr>position = (Fin 8, Fin 5, Fin 8), color = (Fin 1, literal 0.2, literal 0.2),
                 radius = Fin 2.0, intensity = Fin 2.0\<rparr>],
      cameraPos = (Fin 8.5, Fin 0.5, Fin 4.5), yaw = 0, pitch = 0,
      selectedColorIdx = 0, isMirrorSelected = False, tool = BLOCK\<rparr>"

text \<open>
  A camera at \<open>(1.5, 0.5 + 2 ^ (- 30), 0.5)\<close>, with the Block tool selected: its distance
  from the centre of the cell \<open>(0, 0, 0)\<close> is the square root of \<open>1 + 2 ^ (- 60)\<close>.
\<close>

definition sceneGrazing :: AppState where
  "sceneGrazing =
     \<lparr>gridData = emptyGrid, lights = [],
      cameraPos = (Fin (3 / 2), Fin (1 / 2 + 1 / 2 ^ 30), Fin (1 / 2)), yaw = 0, pitch = 0,
      selectedColorIdx = 0, isMirrorSelected = False, tool = BLOCK\<rparr>"

section \<open>Properties of the rounding\<close>

lemma rne_of_int: "rne (of_int k) = k"
  by (simp add: rne_def)

lemma rne_upper: "rne z \<le> \<lfloor>z\<rfloor> + 1"
  unfolding rne_def Let_def by auto

lemma rne_lower: "\<lfloor>z\<rfloor> \<le> rne z"
  unfolding rne_def Let_def by auto

lemma rne_le: "z \<le> of_int k \<Longrightarrow> rne z \<le> k"
proof -
  assume a: "z \<le> of_int k"
  have "\<lfloor>z\<rfloor> \<le> k" using a by linarith
  then consider "\<lfloor>z\<rfloor> = k" | "\<lfloor>z\<rfloor> + 1 \<le> k" by linarith
  then show ?thesis
  proof cases
    case 1
    then have "z = of_int k" using a by linarith
    then show ?thesis by (simp add: rne_of_int)
  next
    case 2
    then show ?thesis using rne_upper [of z] by linarith
  qed
qed

lemma rne_ge: "of_int k \<le> z \<Longrightarrow> k \<le> rne z"
proof -
  assume a: "of_int k \<le> z"
  have "k \<le> \<lfloor>z\<rfloor>" using a by linarith
  then show ?thesis using rne_lower [of z] by linarith
qed

lemma rne_mono: "z \<le> w \<Longrightarrow> rne z \<le> rne w"
proof -
  assume zw: "z \<le> w"
  have "\<lfloor>z\<rfloor> \<le> \<lfloor>w\<rfloor>" using zw by (rule floor_mono)
  then consider "\<lfloor>z\<rfloor> < \<lfloor>w\<rfloor>" | "\<lfloor>z\<rfloor> = \<lfloor>w\<rfloor>" by linarith
  then show ?thesis
  proof cases
    case 1
    have "rne z \<le> \<lfloor>z\<rfloor> + 1" unfolding rne_def Let_def by auto
    moreover have "\<lfloor>w\<rfloor> \<le> rne w" unfolding rne_def Let_def by auto
    ultimately show ?thesis using 1 by linarith
  next
    case 2
    then show ?thesis using zw unfolding rne_def Let_def by auto
  qed
qed

lemma rne_minus: "rne (- z) = - rne z"
proof (cases "z \<in> \<int>")
  case True
  then obtain k where "z = of_int k" by (auto elim: Ints_cases)
  then have "- z = of_int (- k)" by simp
  then show ?thesis using \<open>z = of_int k\<close> rne_of_int by metis
next
  case False
  then have "z \<noteq> of_int \<lfloor>z\<rfloor>" by (metis Ints_of_int)
  then have f: "\<lfloor>- z\<rfloor> = - \<lfloor>z\<rfloor> - 1"
    by (simp add: floor_minus ceiling_altdef)
  show ?thesis unfolding rne_def Let_def f by auto
qed

lemma rne_half: "\<bar>z\<bar> \<le> 1/2 \<Longrightarrow> rne z = 0"
proof -
  assume a: "\<bar>z\<bar> \<le> 1/2"
  consider "0 \<le> z" | "z < 0" by linarith
  then show ?thesis
  proof cases
    case 1
    then have "\<lfloor>z\<rfloor> = 0" using a by linarith
    then show ?thesis using a 1 unfolding rne_def Let_def by auto
  next
    case 2
    then have "\<lfloor>z\<rfloor> = - 1" using a by linarith
    then show ?thesis using a 2 unfolding rne_def Let_def by auto
  qed
qed

lemma ulp64_pos: "0 < ulp64 x"
  by (simp add: ulp64_def)

lemma exponent64_minus: "exponent64 (- x) = exponent64 x"
  by (simp add: exponent64_def)

lemma ulp64_minus: "ulp64 (- x) = ulp64 x"
  by (simp add: ulp64_def exponent64_minus)

lemma exponent64_upper:
  assumes "x \<noteq> 0"
  shows "\<bar>x\<bar> < 2 powr (of_int (exponent64 x) + 1)"
proof -
  have "log 2 \<bar>x\<bar> < of_int \<lfloor>log 2 \<bar>x\<bar>\<rfloor> + 1" by linarith
  also have "\<dots> \<le> of_int (exponent64 x) + 1" by (simp add: exponent64_def)
  finally have "2 powr (log 2 \<bar>x\<bar>) < 2 powr (of_int (exponent64 x) + 1)" by simp
  then show ?thesis using assms by simp
qed

lemma exponent64_lower:
  assumes "x \<noteq> 0" and "- 1022 < exponent64 x"
  shows "2 powr (of_int (exponent64 x)) \<le> \<bar>x\<bar>"
proof -
  have "exponent64 x = \<lfloor>log 2 \<bar>x\<bar>\<rfloor>" using assms(2) by (simp add: exponent64_def max_def split: if_splits)
  then have "of_int (exponent64 x) \<le> log 2 \<bar>x\<bar>" by simp
  then have "2 powr (of_int (exponent64 x)) \<le> 2 powr (log 2 \<bar>x\<bar>)" by simp
  then show ?thesis using assms(1) by simp
qed

lemma exponent64_mono:
  assumes "x \<noteq> 0" and "\<bar>x\<bar> \<le> \<bar>y\<bar>"
  shows "exponent64 x \<le> exponent64 y"
proof -
  have "log 2 \<bar>x\<bar> \<le> log 2 \<bar>y\<bar>" using assms by simp
  then have "\<lfloor>log 2 \<bar>x\<bar>\<rfloor> \<le> \<lfloor>log 2 \<bar>y\<bar>\<rfloor>" by (rule floor_mono)
  then show ?thesis by (simp add: exponent64_def)
qed

lemma exponent64_binade:
  assumes "2 powr of_int e \<le> \<bar>x\<bar>" and "\<bar>x\<bar> < 2 powr (of_int e + 1)" and "- 1022 \<le> e"
  shows "exponent64 x = e"
proof -
  have "0 < \<bar>x\<bar>" using assms(1) by (smt (verit) powr_gt_zero)
  then have "\<lfloor>log 2 \<bar>x\<bar>\<rfloor> = e" using assms by (simp add: floor_log_eq_powr_iff)
  then show ?thesis using assms(3) by (simp add: exponent64_def)
qed

lemma nearest64_zero: "nearest64 0 = 0"
  by (simp add: nearest64_def rne_def)

lemma nearest64_minus: "nearest64 (- x) = - nearest64 x"
  by (simp add: nearest64_def ulp64_minus rne_minus)

lemma nearest64_nonneg: "0 \<le> x \<Longrightarrow> 0 \<le> nearest64 x"
proof -
  assume "0 \<le> x"
  then have "of_int 0 \<le> x / ulp64 x" using ulp64_pos [of x] by simp
  then have "0 \<le> rne (x / ulp64 x)" by (rule rne_ge)
  then show ?thesis using ulp64_pos [of x] by (simp add: nearest64_def)
qed

lemma ulp64_top: "2 powr (of_int (exponent64 x) + 1) = 2 ^ 53 * ulp64 x"
proof -
  have e: "real_of_int (exponent64 x) + 1 = 53 + (of_int (exponent64 x) - 52)" by simp
  have "(2::real) powr (of_int (exponent64 x) + 1) = 2 powr (53 + (of_int (exponent64 x) - 52))"
    by (simp only: e)
  also have "\<dots> = 2 powr 53 * 2 powr (of_int (exponent64 x) - 52)" by (rule powr_add)
  also have "(2::real) powr 53 = 2 ^ 53" using powr_realpow [of "2::real" 53] by simp
  finally show ?thesis by (simp only: ulp64_def)
qed

lemma ulp64_bottom: "2 powr (of_int (exponent64 x)) = 2 ^ 52 * ulp64 x"
proof -
  have e: "real_of_int (exponent64 x) = 52 + (of_int (exponent64 x) - 52)" by simp
  have "(2::real) powr (of_int (exponent64 x)) = 2 powr (52 + (of_int (exponent64 x) - 52))"
    using e by simp
  also have "\<dots> = 2 powr 52 * 2 powr (of_int (exponent64 x) - 52)" by (rule powr_add)
  also have "(2::real) powr 52 = 2 ^ 52" using powr_realpow [of "2::real" 52] by simp
  finally show ?thesis by (simp only: ulp64_def)
qed

lemma nearest64_le_multiple:
  assumes "x \<le> of_int k * ulp64 x"
  shows "nearest64 x \<le> of_int k * ulp64 x"
proof -
  have "x / ulp64 x \<le> of_int k" using assms ulp64_pos [of x] by (simp add: pos_divide_le_eq)
  then have "rne (x / ulp64 x) \<le> k" by (rule rne_le)
  then have "real_of_int (rne (x / ulp64 x)) \<le> real_of_int k" by simp
  then show ?thesis unfolding nearest64_def using ulp64_pos [of x]
    by (rule mult_right_mono [OF _ less_imp_le])
qed

lemma nearest64_ge_multiple:
  assumes "of_int k * ulp64 x \<le> x"
  shows "of_int k * ulp64 x \<le> nearest64 x"
proof -
  have "of_int k \<le> x / ulp64 x" using assms ulp64_pos [of x] by (simp add: pos_le_divide_eq)
  then have "k \<le> rne (x / ulp64 x)" by (rule rne_ge)
  then have "real_of_int k \<le> real_of_int (rne (x / ulp64 x))" by simp
  then show ?thesis unfolding nearest64_def using ulp64_pos [of x]
    by (rule mult_right_mono [OF _ less_imp_le])
qed

lemma nearest64_mono_pos:
  assumes "0 < x" and "x \<le> y"
  shows "nearest64 x \<le> nearest64 y"
proof -
  have xy: "x \<noteq> 0" "y \<noteq> 0" "\<bar>x\<bar> = x" "\<bar>y\<bar> = y" using assms by auto
  have "exponent64 x \<le> exponent64 y" using exponent64_mono [of x y] assms by simp
  then consider "exponent64 x = exponent64 y" | "exponent64 x < exponent64 y" by linarith
  then show ?thesis
  proof cases
    case 1
    then have u: "ulp64 x = ulp64 y" by (simp add: ulp64_def)
    have "x / ulp64 y \<le> y / ulp64 y" using assms ulp64_pos [of y] by (simp add: divide_right_mono)
    then have "rne (x / ulp64 y) \<le> rne (y / ulp64 y)" by (rule rne_mono)
    then have "real_of_int (rne (x / ulp64 y)) * ulp64 y \<le> real_of_int (rne (y / ulp64 y)) * ulp64 y"
      using ulp64_pos [of y] by simp
    then show ?thesis by (simp add: nearest64_def u)
  next
    case 2
    have "x < 2 powr (of_int (exponent64 x) + 1)" using exponent64_upper [of x] xy by simp
    then have "x \<le> of_int (2 ^ 53) * ulp64 x" by (simp add: ulp64_top)
    then have "nearest64 x \<le> of_int (2 ^ 53) * ulp64 x" by (rule nearest64_le_multiple)
    then have a: "nearest64 x \<le> 2 powr (of_int (exponent64 x) + 1)" by (simp add: ulp64_top)
    have "- 1022 \<le> exponent64 x" by (simp add: exponent64_def)
    then have "- 1022 < exponent64 y" using 2 by linarith
    then have "2 powr (of_int (exponent64 y)) \<le> y" using exponent64_lower [of y] xy by simp
    then have "of_int (2 ^ 52) * ulp64 y \<le> y" by (simp add: ulp64_bottom)
    then have "of_int (2 ^ 52) * ulp64 y \<le> nearest64 y" by (rule nearest64_ge_multiple)
    then have b: "2 powr (of_int (exponent64 y)) \<le> nearest64 y" by (simp add: ulp64_bottom)
    have "of_int (exponent64 x) + (1::real) \<le> of_int (exponent64 y)" using 2 by linarith
    then have "(2::real) powr (of_int (exponent64 x) + 1) \<le> 2 powr (of_int (exponent64 y))" by simp
    then show ?thesis using a b by linarith
  qed
qed

lemma nearest64_mono:
  assumes "x \<le> y"
  shows "nearest64 x \<le> nearest64 y"
proof -
  consider "0 < x" | "x \<le> 0" "0 \<le> y" | "y < 0" by linarith
  then show ?thesis
  proof cases
    case 1
    then show ?thesis using assms by (rule nearest64_mono_pos)
  next
    case 2
    have "0 \<le> nearest64 (- x)" using 2 by (simp add: nearest64_nonneg)
    then have "nearest64 x \<le> 0" by (simp add: nearest64_minus)
    moreover have "0 \<le> nearest64 y" using 2 by (simp add: nearest64_nonneg)
    ultimately show ?thesis by linarith
  next
    case 3
    then have "nearest64 (- y) \<le> nearest64 (- x)" using assms by (intro nearest64_mono_pos) auto
    then show ?thesis by (simp add: nearest64_minus)
  qed
qed


lemma nearest64_exact:
  assumes m: "\<bar>m\<bar> < 2 ^ 53" and k: "- 1074 \<le> k"
  shows "nearest64 (of_int m * 2 powr of_int k) = of_int m * 2 powr of_int k"
proof (cases "m = 0")
  case True
  then show ?thesis by (simp add: nearest64_zero)
next
  case False
  define x where "x = real_of_int m * 2 powr of_int k"
  have x0: "x \<noteq> 0" using False by (simp add: x_def)
  have "\<bar>m\<bar> \<le> 2 ^ 53 - 1" using m by simp
  then have "real_of_int \<bar>m\<bar> \<le> real_of_int (2 ^ 53 - 1)" by (rule of_int_le_iff [THEN iffD2])
  then have am: "\<bar>real_of_int m\<bar> < 2 ^ 53" by simp
  have ax: "\<bar>x\<bar> = \<bar>real_of_int m\<bar> * 2 powr of_int k" by (simp add: x_def abs_mult)
  have le: "exponent64 x - 52 \<le> k"
  proof (rule ccontr)
    assume "\<not> exponent64 x - 52 \<le> k"
    then have big: "k + 53 \<le> exponent64 x" by linarith
    then have "- 1022 < exponent64 x" using k by linarith
    then have "2 powr (of_int (exponent64 x)) \<le> \<bar>x\<bar>" using exponent64_lower [OF x0] by simp
    moreover have "\<bar>x\<bar> < 2 ^ 53 * 2 powr of_int k" unfolding ax using am by simp
    moreover have "(2::real) ^ 53 * 2 powr of_int k = 2 powr (53 + of_int k)"
      using powr_realpow [of "2::real" 53] by (simp add: powr_add)
    moreover have "(2::real) powr (53 + of_int k) \<le> 2 powr (of_int (exponent64 x))"
      using big by simp
    ultimately show False by linarith
  qed
  define j where "j = nat (k - (exponent64 x - 52))"
  have kj: "real_of_int k = real j + (real_of_int (exponent64 x) - 52)" using le by (simp add: j_def)
  have "(2::real) powr of_int k = 2 powr (real j) * 2 powr (of_int (exponent64 x) - 52)"
    unfolding kj by (rule powr_add)
  also have "(2::real) powr (real j) = 2 ^ j" by (simp add: powr_realpow)
  finally have pk: "(2::real) powr of_int k = 2 ^ j * ulp64 x" by (simp only: ulp64_def)
  define u where "u = ulp64 x"
  have u0: "0 < u" by (simp add: u_def ulp64_pos)
  have pk': "(2::real) powr of_int k = 2 ^ j * u" by (simp only: pk u_def)
  have xe: "x = of_int (m * 2 ^ j) * u" unfolding x_def pk' by simp
  then have "x / u = of_int (m * 2 ^ j)" using u0 by simp
  then have "rne (x / u) = m * 2 ^ j" by (simp only: rne_of_int)
  then have "nearest64 x = of_int (m * 2 ^ j) * u" by (simp only: nearest64_def u_def)
  then have "nearest64 x = x" by (simp only: xe [symmetric])
  then show ?thesis by (simp only: x_def)
qed

lemma nearest64_underflow:
  assumes "\<bar>x\<bar> \<le> 2 powr (- 1075)"
  shows "nearest64 x = 0"
proof (cases "x = 0")
  case True
  then show ?thesis by (simp add: nearest64_zero)
next
  case False
  have e: "exponent64 x = - 1022"
  proof (rule ccontr)
    assume ne: "exponent64 x \<noteq> - 1022"
    have "- 1022 \<le> exponent64 x" by (simp add: exponent64_def)
    then have gt: "- 1022 < exponent64 x" using ne by linarith
    then have "2 powr (of_int (exponent64 x)) \<le> \<bar>x\<bar>" by (rule exponent64_lower [OF False])
    then have "(2::real) powr (of_int (exponent64 x)) \<le> 2 powr (- 1075)" using assms by linarith
    then have "real_of_int (exponent64 x) \<le> - 1075" by (simp only: powr_le_cancel_iff one_less_numeral_iff semiring_norm)
    then show False using gt by linarith
  qed
  have u: "ulp64 x = 2 powr (- 1074)" by (simp add: ulp64_def e)
  have "(2::real) powr (- 1075) = 2 powr (- 1 + - 1074)" by simp
  also have "\<dots> = 2 powr (- 1) * 2 powr (- 1074)" by (rule powr_add)
  also have "(2::real) powr (- 1) = 1 / 2" by (simp add: powr_minus_divide)
  finally have "\<bar>x\<bar> \<le> 1 / 2 * ulp64 x" using assms by (simp only: u)
  then have "\<bar>x\<bar> / ulp64 x \<le> 1 / 2" using ulp64_pos [of x] by (simp add: pos_divide_le_eq)
  then have "\<bar>x / ulp64 x\<bar> \<le> 1 / 2" using ulp64_pos [of x] by simp
  then have "rne (x / ulp64 x) = 0" by (rule rne_half)
  then show ?thesis by (simp add: nearest64_def)
qed

lemma nearest64_binade:
  assumes "2 powr of_int e \<le> \<bar>x\<bar>" and "\<bar>x\<bar> < 2 powr (of_int e + 1)" and "- 1022 \<le> e"
  shows "nearest64 x = of_int (rne (x / 2 powr (of_int e - 52))) * 2 powr (of_int e - 52)"
  using exponent64_binade [OF assms] by (simp add: nearest64_def ulp64_def)

lemma nearest64_example: "nearest64 (1 + 1 / 2 ^ 60) = 1"
proof -
  have p: "(2::real) powr (- 52) = 1 / 2 ^ 52"
    using powr_realpow [of "2::real" 52] by (simp add: powr_minus_divide)
  have "nearest64 (1 + 1 / 2 ^ 60) =
          of_int (rne ((1 + 1 / 2 ^ 60) / 2 powr (of_int 0 - 52))) * 2 powr (of_int 0 - 52)"
    by (rule nearest64_binade) simp_all
  also have "\<dots> = 1" by (simp add: p rne_def)
  finally show ?thesis .
qed

subsection \<open>Rounded numbers\<close>

lemma overflow64_pos: "0 < overflow64"
  by (simp only: overflow64_def zero_less_power zero_less_numeral)

lemma double_iff: "double r \<longleftrightarrow> nearest64 r = r \<and> - overflow64 < r \<and> r < overflow64"
  using overflow64_pos by (auto simp: double_def round64_def Let_def)

lemma round64_mono: "x \<le> y \<Longrightarrow> round64 x \<le> round64 y"
  using nearest64_mono [of x y] overflow64_pos by (auto simp: round64_def Let_def)

lemma round64_between:
  assumes "double lo" and "double hi" and "lo \<le> x" and "x \<le> hi"
  shows "bounded_by (round64 x) lo hi"
proof -
  have lo: "nearest64 lo = lo" "- overflow64 < lo" and hi: "nearest64 hi = hi" "hi < overflow64"
    using assms(1,2) by (simp_all add: double_iff)
  have "lo \<le> nearest64 x" using nearest64_mono [OF assms(3)] lo(1) by simp
  moreover have "nearest64 x \<le> hi" using nearest64_mono [OF assms(4)] hi(1) by simp
  ultimately show ?thesis using lo(2) hi(2) by (simp add: round64_def Let_def bounded_by_def)
qed

lemma round64_ge:
  assumes "double lo" and "lo \<le> x"
  shows "Fin lo \<le> round64 x"
  using round64_mono [OF assms(2)] assms(1) by (simp add: double_def)

lemma round64_le:
  assumes "double hi" and "x \<le> hi"
  shows "round64 x \<le> Fin hi"
  using round64_mono [OF assms(2)] assms(1) by (simp add: double_def)

lemma round64_underflow: "\<bar>x\<bar> \<le> 2 powr (- 1075) \<Longrightarrow> round64 x = Fin 0"
  using overflow64_pos by (simp add: round64_def Let_def nearest64_underflow)

lemma double_zero: "double 0"
  using overflow64_pos by (simp add: double_def round64_def Let_def nearest64_zero)

lemma double_dyadic:
  assumes m: "\<bar>m\<bar> < 2 ^ 53" and k: "- 1074 \<le> k" "k \<le> 970"
  shows "double (of_int m * 2 powr of_int k)"
proof -
  define K :: int where "K = 970"
  define N :: nat where "N = 1024"
  have "\<bar>m\<bar> \<le> 2 ^ 53 - 1" using m by simp
  then have "real_of_int \<bar>m\<bar> \<le> real_of_int (2 ^ 53 - 1)" by (rule of_int_le_iff [THEN iffD2])
  then have am: "\<bar>real_of_int m\<bar> \<le> 2 ^ 53" by simp
  have "real_of_int k \<le> real_of_int K" using k(2) by (simp add: K_def)
  then have pk: "(2::real) powr of_int k \<le> 2 powr of_int K" by simp
  have "\<bar>real_of_int m * 2 powr of_int k\<bar> = \<bar>real_of_int m\<bar> * 2 powr of_int k"
    by (simp add: abs_mult)
  also have "\<dots> \<le> 2 ^ 53 * 2 powr of_int K"
    using am pk by (intro mult_mono) simp_all
  also have "\<dots> = 2 powr 53 * 2 powr of_int K" using powr_realpow [of "2::real" 53] by simp
  also have "\<dots> = 2 powr (53 + of_int K)" by (rule powr_add [symmetric])
  also have "\<dots> < 2 powr (real N)"
    by (simp only: powr_less_cancel_iff one_less_numeral_iff semiring_norm) (simp add: K_def N_def)
  also have "\<dots> = 2 ^ N" by (simp add: powr_realpow)
  finally have "\<bar>real_of_int m * 2 powr of_int k\<bar> < overflow64"
    by (simp only: overflow64_def N_def)
  then have "- overflow64 < real_of_int m * 2 powr of_int k"
            "real_of_int m * 2 powr of_int k < overflow64" by linarith+
  then show ?thesis using nearest64_exact [OF m k(1)] by (simp only: double_iff simp_thms)
qed

lemma double_of_int: "\<bar>n\<bar> < 2 ^ 53 \<Longrightarrow> double (of_int n)"
  using double_dyadic [of n 0] by simp

lemma double_div_pow2:
  assumes "\<bar>m\<bar> < 2 ^ 53" and "j \<le> 1074"
  shows "double (of_int m / 2 ^ j)"
proof -
  have "(2::real) powr of_int (- int j) = 2 powr (- real j)" by simp
  also have "\<dots> = 1 / 2 powr (real j)" by (rule powr_minus_divide)
  also have "\<dots> = 1 / 2 ^ j" by (simp add: powr_realpow)
  finally have "real_of_int m * 2 powr of_int (- int j) = of_int m / 2 ^ j" by simp
  moreover have "double (of_int m * 2 powr of_int (- int j))"
    using assms by (intro double_dyadic) simp_all
  ultimately show ?thesis by simp
qed

lemma double_halves: "\<bar>n\<bar> < 2 ^ 53 \<Longrightarrow> double (of_int n / 2)"
  using double_div_pow2 [of n 1] by simp

lemma double_quarters: "\<bar>n\<bar> < 2 ^ 53 \<Longrightarrow> double (of_int n / 4)"
  using double_div_pow2 [of n 2] by simp

lemma round64_of_int: "\<bar>n\<bar> < 2 ^ 53 \<Longrightarrow> round64 (of_int n) = Fin (of_int n)"
  using double_of_int [of n] by (simp add: double_def)

lemma round64_halves: "\<bar>n\<bar> < 2 ^ 53 \<Longrightarrow> round64 (of_int n / 2) = Fin (of_int n / 2)"
  using double_halves [of n] by (simp add: double_def)

section \<open>Properties of the vector kernel\<close>

lemma rounded_ge: "double m \<Longrightarrow> Fin m \<le> a \<Longrightarrow> Fin m \<le> rounded a"
  by (cases a) (simp_all add: round64_ge)

lemma plus64_ge_left:
  assumes "double m" and "Fin m \<le> a" and "Fin 0 \<le> b"
  shows "Fin m \<le> plus64 a b"
proof -
  have "Fin m \<le> a + b" using assms(2,3) by (cases a; cases b) simp_all
  then show ?thesis unfolding plus64_def by (rule rounded_ge [OF assms(1)])
qed

lemma plus64_ge_right:
  assumes "double m" and "Fin 0 \<le> a" and "Fin m \<le> b"
  shows "Fin m \<le> plus64 a b"
proof -
  have "Fin m \<le> a + b" using assms(2,3) by (cases a; cases b) simp_all
  then show ?thesis unfolding plus64_def by (rule rounded_ge [OF assms(1)])
qed

lemma square64_nonneg: "Fin 0 \<le> times64 (Fin x) (Fin x)"
  unfolding times64_def using round64_ge [OF double_zero, of "x * x"] by simp

lemma square64_ge:
  assumes "double (m * m)" and "0 \<le> m" and "m \<le> \<bar>x\<bar>"
  shows "Fin (m * m) \<le> times64 (Fin x) (Fin x)"
proof -
  have "m * m \<le> \<bar>x\<bar> * \<bar>x\<bar>" using assms(2,3) by (intro mult_mono) simp_all
  then have "m * m \<le> x * x" by simp
  then show ?thesis unfolding times64_def using round64_ge [OF assms(1)] by simp
qed

lemma square64_underflow:
  assumes "0 \<le> m" and "m * m \<le> 2 powr (- 1075)" and "\<bar>x\<bar> \<le> m"
  shows "times64 (Fin x) (Fin x) = Fin 0"
proof -
  have "\<bar>x\<bar> * \<bar>x\<bar> \<le> m * m" using assms(1,3) by (intro mult_mono) simp_all
  then have "\<bar>x * x\<bar> \<le> 2 powr (- 1075)" using assms(2) by (simp add: abs_mult)
  then show ?thesis unfolding times64_def by (simp add: round64_underflow)
qed

lemma sqrt64_ge:
  assumes "double m" and "0 \<le> m" and "Fin (m * m) \<le> a"
  shows "Fin m \<le> Math_sqrt a"
proof (cases a)
  case (Fin v)
  then have "m * m \<le> v" using assms(3) by simp
  then have "sqrt (m * m) \<le> sqrt v" by (rule real_sqrt_le_mono)
  then have "m \<le> sqrt v" using assms(2) by simp
  moreover have "0 \<le> v" using \<open>m * m \<le> v\<close> zero_le_square [of m] by linarith
  ultimately show ?thesis using Fin round64_ge [OF assms(1)] by (simp add: Math_sqrt_def)
qed (use assms(3) in \<open>simp_all add: Math_sqrt_def\<close>)

lemma len_positive:
  assumes dm: "double m" and dmm: "double (m * m)" and m0: "0 < m"
      and big: "m \<le> \<bar>x\<bar> \<or> m \<le> \<bar>y\<bar> \<or> m \<le> \<bar>z\<bar>"
  shows "Fin 0 < len (Fin x, Fin y, Fin z)"
proof -
  note nn = square64_nonneg [of x] square64_nonneg [of y] square64_nonneg [of z]
  have m0': "0 \<le> m" using m0 by simp
  from big have "Fin (m * m) \<le> dot (Fin x, Fin y, Fin z) (Fin x, Fin y, Fin z)"
  proof (elim disjE)
    assume "m \<le> \<bar>x\<bar>"
    then have "Fin (m * m) \<le> times64 (Fin x) (Fin x)" by (rule square64_ge [OF dmm m0'])
    then have "Fin (m * m) \<le> plus64 (times64 (Fin x) (Fin x)) (times64 (Fin y) (Fin y))"
      using nn(2) by (rule plus64_ge_left [OF dmm])
    then show ?thesis using plus64_ge_left [OF dmm _ nn(3)] by (simp only: dot.simps)
  next
    assume "m \<le> \<bar>y\<bar>"
    then have "Fin (m * m) \<le> times64 (Fin y) (Fin y)" by (rule square64_ge [OF dmm m0'])
    then have "Fin (m * m) \<le> plus64 (times64 (Fin x) (Fin x)) (times64 (Fin y) (Fin y))"
      by (rule plus64_ge_right [OF dmm nn(1)])
    then show ?thesis using plus64_ge_left [OF dmm _ nn(3)] by (simp only: dot.simps)
  next
    assume "m \<le> \<bar>z\<bar>"
    then have "Fin (m * m) \<le> times64 (Fin z) (Fin z)" by (rule square64_ge [OF dmm m0'])
    moreover have "Fin 0 \<le> plus64 (times64 (Fin x) (Fin x)) (times64 (Fin y) (Fin y))"
      by (rule plus64_ge_left [OF double_zero nn(1) nn(2)])
    ultimately show ?thesis using plus64_ge_right [OF dmm] by (simp only: dot.simps)
  qed
  then have "Fin m \<le> len (Fin x, Fin y, Fin z)"
    unfolding len_def by (rule sqrt64_ge [OF dm m0'])
  then show ?thesis using m0 by (cases "len (Fin x, Fin y, Fin z)") simp_all
qed

lemma normalize_underflow:
  assumes m0: "0 \<le> m" and small: "m * m \<le> 2 powr (- 1075)"
      and "\<bar>x\<bar> \<le> m" and "\<bar>y\<bar> \<le> m" and "\<bar>z\<bar> \<le> m"
  shows "normalize3 (Fin x, Fin y, Fin z) = (Fin 0, Fin 0, Fin 0)"
proof -
  have r0: "round64 0 = Fin 0" using double_zero by (simp add: double_def)
  have "times64 (Fin x) (Fin x) = Fin 0" "times64 (Fin y) (Fin y) = Fin 0"
       "times64 (Fin z) (Fin z) = Fin 0"
    using assms by (simp_all add: square64_underflow [OF m0 small])
  then show ?thesis by (simp add: plus64_def Math_sqrt_def strict_eq_def r0 Let_def)
qed

lemma inverse_power2_square: "(1 / 2 ^ n) * (1 / 2 ^ n) = 1 / (2::real) ^ (2 * n)"
  by (simp add: mult_2 power_add)

lemma small_power_underflows:
  assumes "1075 \<le> j"
  shows "1 / (2::real) ^ j \<le> 2 powr (- 1075)"
proof -
  define i :: nat where "i = 1075"
  have "(2::real) powr (- real i) = 1 / 2 powr (real i)" by (rule powr_minus_divide)
  also have "\<dots> = 1 / 2 ^ i" by (simp only: powr_realpow zero_less_numeral)
  finally have p: "(2::real) powr (- real i) = 1 / 2 ^ i" .
  have "i \<le> j" using assms by (simp add: i_def)
  then have "(2::real) ^ i \<le> 2 ^ j" by (intro power_increasing) simp_all
  then have "1 / (2::real) ^ j \<le> 1 / 2 ^ i" by (simp add: frac_le)
  then have "1 / (2::real) ^ j \<le> 2 powr (- real i)" by (simp only: p)
  moreover have "real i = 1075" by (simp add: i_def)
  ultimately show ?thesis by (simp only:)
qed

lemma large_power_overflows:
  assumes "1024 \<le> j"
  shows "round64 (2 ^ j) = PInf"
proof -
  have "nearest64 (of_int 1 * 2 powr of_int (int j)) = of_int 1 * 2 powr of_int (int j)"
    by (rule nearest64_exact) simp_all
  moreover have "(2::real) powr of_int (int j) = 2 ^ j" by (simp add: powr_realpow)
  ultimately have n: "nearest64 (2 ^ j) = 2 ^ j" by simp
  have "(2::real) ^ 1024 \<le> 2 ^ j" using assms by (intro power_increasing) simp_all
  then have "overflow64 \<le> 2 ^ j" by (simp only: overflow64_def)
  then show ?thesis by (simp add: round64_def Let_def n)
qed

lemma round64_zero: "round64 0 = Fin 0"
  using double_zero by (simp add: double_def)

lemma round64_one: "round64 1 = Fin 1"
  using round64_of_int [of 1] by simp

lemma round64_numeral:
  "(numeral w :: int) < 2 ^ 53 \<Longrightarrow> round64 (numeral w) = Fin (numeral w)"
  using round64_of_int [of "numeral w"] by simp

lemma round64_neg_numeral:
  "(numeral w :: int) < 2 ^ 53 \<Longrightarrow> round64 (- numeral w) = Fin (- numeral w)"
  using round64_of_int [of "- numeral w"] by simp

lemma round64_numeral_half:
  "(numeral w :: int) < 2 ^ 53 \<Longrightarrow> round64 (numeral w / 2) = Fin (numeral w / 2)"
  using round64_halves [of "numeral w"] by simp

lemma round64_neg_numeral_half:
  "(numeral w :: int) < 2 ^ 53 \<Longrightarrow> round64 (- (numeral w / 2)) = Fin (- (numeral w / 2))"
  using round64_halves [of "- numeral w"] by simp

lemma round64_one_half: "round64 (1 / 2) = Fin (1 / 2)" "round64 (- (1 / 2)) = Fin (- (1 / 2))"
  using round64_halves [of 1] round64_halves [of "- 1"] by simp_all

lemma round64_neg_one: "round64 (- 1) = Fin (- 1)"
  using round64_of_int [of "- 1"] by simp

lemma round64_numeral_quarter:
  "(numeral w :: int) < 2 ^ 53 \<Longrightarrow> round64 (numeral w / 4) = Fin (numeral w / 4)"
  using double_quarters [of "numeral w"] by (simp add: double_def)

lemma round64_one_quarter: "round64 (1 / 4) = Fin (1 / 4)"
  using double_quarters [of 1] by (simp add: double_def)

text \<open>The rounded operations on finite operands.\<close>

lemma plus64_Fin: "plus64 (Fin a) (Fin b) = round64 (a + b)"
  by (simp add: plus64_def)

lemma minus64_Fin: "minus64 (Fin a) (Fin b) = round64 (a - b)"
  by (simp add: minus64_def minus_number_def)

lemma times64_Fin: "times64 (Fin a) (Fin b) = round64 (a * b)"
  by (simp add: times64_def)

lemma divide64_Fin: "b \<noteq> 0 \<Longrightarrow> divide64 (Fin a) (Fin b) = round64 (a / b)"
  by (simp add: divide64_def)

lemma sqrt64_Fin: "0 \<le> a \<Longrightarrow> Math_sqrt (Fin a) = round64 (sqrt a)"
  by (simp add: Math_sqrt_def)

lemmas round64_simps =
  round64_zero round64_one round64_neg_one round64_numeral round64_neg_numeral
  round64_numeral_half round64_neg_numeral_half round64_one_half
  round64_numeral_quarter round64_one_quarter
  plus64_Fin minus64_Fin times64_Fin divide64_Fin sqrt64_Fin

text \<open>
  C5 as amended. \<^verbatim>\<open>normalize\<close> of the zero vector is the zero vector. In general it
  returns the zero vector when the length it computes, \<^verbatim>\<open>len\<close>, is zero, and otherwise
  each component divided by that length, the quotient rounded. The computed length is
  above zero as soon as one component is at least \<open>2 ^ (- 537)\<close> in absolute value, and
  it is zero, by underflow of the squares, when no component exceeds \<open>2 ^ (- 538)\<close>.
\<close>

theorem normalize_by_computed_length:
  "normalize3 (Fin 0, Fin 0, Fin 0) = (Fin 0, Fin 0, Fin 0) \<and>
   (\<forall>a0 a1 a2. normalize3 (a0, a1, a2) =
      (if len (a0, a1, a2) = Fin 0 then (Fin 0, Fin 0, Fin 0)
       else (divide64 a0 (len (a0, a1, a2)), divide64 a1 (len (a0, a1, a2)),
             divide64 a2 (len (a0, a1, a2))))) \<and>
   (\<forall>x y z. 1 / 2 ^ 537 \<le> \<bar>x\<bar> \<or> 1 / 2 ^ 537 \<le> \<bar>y\<bar> \<or> 1 / 2 ^ 537 \<le> \<bar>z\<bar> \<longrightarrow>
      Fin 0 < len (Fin x, Fin y, Fin z) \<and>
      normalize3 (Fin x, Fin y, Fin z) =
        (divide64 (Fin x) (len (Fin x, Fin y, Fin z)), divide64 (Fin y) (len (Fin x, Fin y, Fin z)),
         divide64 (Fin z) (len (Fin x, Fin y, Fin z)))) \<and>
   (\<forall>x y z. \<bar>x\<bar> \<le> 1 / 2 ^ 538 \<and> \<bar>y\<bar> \<le> 1 / 2 ^ 538 \<and> \<bar>z\<bar> \<le> 1 / 2 ^ 538 \<longrightarrow>
      normalize3 (Fin x, Fin y, Fin z) = (Fin 0, Fin 0, Fin 0))"
proof -
  define n :: nat where "n = 537"
  define m :: real where "m = 1 / 2 ^ n"
  define k :: nat where "k = 538"
  define s :: real where "s = 1 / 2 ^ k"
  have gen: "normalize3 (a0, a1, a2) =
      (if len (a0, a1, a2) = Fin 0 then (Fin 0, Fin 0, Fin 0)
       else (divide64 a0 (len (a0, a1, a2)), divide64 a1 (len (a0, a1, a2)),
             divide64 a2 (len (a0, a1, a2))))" for a0 a1 a2
    by (simp add: Let_def len_def strict_eq_def del: dot.simps)
  have zero: "normalize3 (Fin 0, Fin 0, Fin 0) = (Fin 0, Fin 0, Fin 0)"
    by (simp add: round64_simps strict_eq_def Let_def)
  have dm: "double m" unfolding m_def using double_div_pow2 [of 1 n] by (simp add: n_def)
  have "double (1 / 2 ^ (2 * n))" using double_div_pow2 [of 1 "2 * n"] by (simp add: n_def)
  then have dmm: "double (m * m)" by (simp only: m_def inverse_power2_square)
  have m0: "0 < m" by (simp add: m_def)
  have pos: "Fin 0 < len (Fin x, Fin y, Fin z)" if "m \<le> \<bar>x\<bar> \<or> m \<le> \<bar>y\<bar> \<or> m \<le> \<bar>z\<bar>" for x y z
    using that by (rule len_positive [OF dm dmm m0])
  have quot: "normalize3 (Fin x, Fin y, Fin z) =
        (divide64 (Fin x) (len (Fin x, Fin y, Fin z)), divide64 (Fin y) (len (Fin x, Fin y, Fin z)),
         divide64 (Fin z) (len (Fin x, Fin y, Fin z)))"
    if "m \<le> \<bar>x\<bar> \<or> m \<le> \<bar>y\<bar> \<or> m \<le> \<bar>z\<bar>" for x y z
  proof -
    have "len (Fin x, Fin y, Fin z) \<noteq> Fin 0" using pos [OF that] by auto
    then show ?thesis by (simp only: gen if_False)
  qed
  have "1 / (2::real) ^ (2 * k) \<le> 2 powr (- 1075)"
    by (rule small_power_underflows) (simp add: k_def)
  then have small: "s * s \<le> 2 powr (- 1075)" by (simp only: s_def inverse_power2_square)
  have s0: "0 \<le> s" by (simp add: s_def)
  have under: "normalize3 (Fin x, Fin y, Fin z) = (Fin 0, Fin 0, Fin 0)"
    if "\<bar>x\<bar> \<le> s \<and> \<bar>y\<bar> \<le> s \<and> \<bar>z\<bar> \<le> s" for x y z
    using that normalize_underflow [OF s0 small] by blast
  show ?thesis
    using zero gen pos quot under unfolding m_def s_def n_def k_def by blast
qed

theorem normalize_by_computed_length_witness:
  "Fin 0 < len (Fin 3, Fin 0, Fin 4) \<and> len (Fin 3, Fin 0, Fin 4) = Fin 5 \<and>
   normalize3 (Fin 3, Fin 0, Fin 4) = (literal (3 / 5), Fin 0, literal (4 / 5)) \<and>
   normalize3 (Fin (1 / 2 ^ 540), Fin 0, Fin (- (1 / 2 ^ 539))) = (Fin 0, Fin 0, Fin 0)"
proof -
  have s: "sqrt 25 = 5" using real_sqrt_abs [of 5] by simp
  have l: "len (Fin 3, Fin 0, Fin 4) = Fin 5"
    by (simp add: len_def round64_simps s)
  have big: "1 / 2 ^ 537 \<le> \<bar>3::real\<bar> \<or> 1 / 2 ^ 537 \<le> \<bar>0::real\<bar> \<or> 1 / 2 ^ 537 \<le> \<bar>4::real\<bar>"
  proof -
    have "1 / (2::real) ^ 537 \<le> 1" by (simp add: divide_le_eq_1 one_le_power del: power_numeral)
    then show ?thesis by simp
  qed
  have sm: "\<bar>1 / 2 ^ 540 :: real\<bar> \<le> 1 / 2 ^ 538 \<and> \<bar>0::real\<bar> \<le> 1 / 2 ^ 538 \<and>
            \<bar>- (1 / 2 ^ 539) :: real\<bar> \<le> 1 / 2 ^ 538"
  proof -
    have "(2::real) ^ 538 \<le> 2 ^ 540" "(2::real) ^ 538 \<le> 2 ^ 539"
      by (rule power_increasing; simp)+
    then show ?thesis by (simp add: frac_le del: power_numeral)
  qed
  from normalize_by_computed_length big
  have "Fin 0 < len (Fin 3, Fin 0, Fin 4) \<and>
        normalize3 (Fin 3, Fin 0, Fin 4) =
          (divide64 (Fin 3) (len (Fin 3, Fin 0, Fin 4)), divide64 (Fin 0) (len (Fin 3, Fin 0, Fin 4)),
           divide64 (Fin 4) (len (Fin 3, Fin 0, Fin 4)))" by blast
  then have a: "Fin 0 < len (Fin 3, Fin 0, Fin 4)"
    and b: "normalize3 (Fin 3, Fin 0, Fin 4) = (literal (3 / 5), Fin 0, literal (4 / 5))"
    by (simp_all add: l divide64_Fin literal_def round64_zero)
  from normalize_by_computed_length sm
  have c: "normalize3 (Fin (1 / 2 ^ 540), Fin 0, Fin (- (1 / 2 ^ 539))) = (Fin 0, Fin 0, Fin 0)"
    by blast
  from a l b c show ?thesis by blast
qed

text \<open>
  C5 as stated fails. The vector \<open>(2 ^ (- 600), 0, 0)\<close> is not zero, and the claim asks
  for \<open>(1, 0, 0)\<close>; the square of its first component underflows, the computed length is
  zero, and \<^verbatim>\<open>normalize\<close> returns the zero vector. For \<open>(2 ^ 600, 0, 0)\<close> the square
  overflows, the computed length is infinite, and the quotients are zero again.
\<close>

theorem normalize_nonzero_returns_zero:
  "double (1 / 2 ^ 600) \<and> (Fin (1 / 2 ^ 600), Fin 0, Fin 0) \<noteq> (Fin 0, Fin 0, Fin 0) \<and>
   (1 / 2 ^ 600) / sqrt ((1 / 2 ^ 600) * (1 / 2 ^ 600) + 0 * 0 + 0 * 0) = (1::real) \<and>
   normalize3 (Fin (1 / 2 ^ 600), Fin 0, Fin 0) = (Fin 0, Fin 0, Fin 0) \<and>
   double (2 ^ 600) \<and> (Fin (2 ^ 600), Fin 0, Fin 0) \<noteq> (Fin 0, Fin 0, Fin 0) \<and>
   normalize3 (Fin (2 ^ 600), Fin 0, Fin 0) = (Fin 0, Fin 0, Fin 0)"
proof -
  define n :: nat where "n = 600"
  define v :: real where "v = 1 / 2 ^ n"
  define b :: real where "b = 2 ^ n"
  have v0: "0 < v" by (simp add: v_def)
  have b0: "0 < b" by (simp add: b_def)
  have dv: "double v" unfolding v_def using double_div_pow2 [of 1 n] by (simp add: n_def)
  have "double (of_int 1 * 2 powr of_int (int n))"
    by (rule double_dyadic) (simp_all add: n_def)
  moreover have "(2::real) powr of_int (int n) = 2 ^ n" by (simp add: powr_realpow)
  ultimately have db: "double b" by (simp add: b_def)
  have q: "v / sqrt (v * v + 0 * 0 + 0 * 0) = 1" using v0 by simp
  have "1 / (2::real) ^ (2 * n) \<le> 2 powr (- 1075)"
    by (rule small_power_underflows) (simp add: n_def)
  then have "v * v \<le> 2 powr (- 1075)" by (simp only: v_def inverse_power2_square)
  then have nv: "normalize3 (Fin v, Fin 0, Fin 0) = (Fin 0, Fin 0, Fin 0)"
    using v0 by (intro normalize_underflow [of v]) simp_all
  have "round64 (2 ^ (2 * n)) = PInf" by (rule large_power_overflows) (simp add: n_def)
  moreover have "b * b = 2 ^ (2 * n)" by (simp add: b_def mult_2 power_add)
  ultimately have sq: "times64 (Fin b) (Fin b) = PInf" by (simp add: times64_def)
  have z: "times64 (Fin 0) (Fin 0) = Fin 0" by (simp add: times64_def round64_zero)
  have nb: "normalize3 (Fin b, Fin 0, Fin 0) = (Fin 0, Fin 0, Fin 0)"
    by (simp add: sq z plus64_def Math_sqrt_def divide64_def strict_eq_def round64_zero Let_def)
  show ?thesis
    using dv db q nv nb v0 b0 unfolding v_def b_def n_def by simp
qed



section \<open>Properties of the quality presets\<close>

text \<open>
  C7. \<^verbatim>\<open>LOW\<close> is 64 steps at scale 0.5 and \<^verbatim>\<open>ULTRA\<close> 1024 steps at scale 1.0, so both grow
  from \<^verbatim>\<open>LOW\<close> to \<^verbatim>\<open>ULTRA\<close>. Three presses of the quality button lead from \<^verbatim>\<open>LOW\<close> to
  \<^verbatim>\<open>ULTRA\<close>, a fourth leads back, and the configuration is then that of \<^verbatim>\<open>LOW\<close> again.
\<close>

theorem quality_presets:
  "maxSteps (getQualityConfig LOW) = 64 \<and> scale (getQualityConfig LOW) = Fin 0.5 \<and>
   maxSteps (getQualityConfig ULTRA) = 1024 \<and> scale (getQualityConfig ULTRA) = Fin 1.0 \<and>
   maxSteps (getQualityConfig LOW) < maxSteps (getQualityConfig ULTRA) \<and>
   scale (getQualityConfig LOW) < scale (getQualityConfig ULTRA) \<and>
   toggleQuality (toggleQuality (toggleQuality LOW)) = ULTRA \<and>
   toggleQuality ULTRA = LOW \<and>
   getQualityConfig (toggleQuality (toggleQuality (toggleQuality (toggleQuality LOW)))) =
     getQualityConfig LOW"
  by simp

section \<open>Evaluating the traversals\<close>

text \<open>One iteration of each loop, for a positive number of remaining iterations.\<close>

lemma cpu_loop_unfold:
  "0 < n \<Longrightarrow> cpu_loop grid gridSize stp delta n s =
     (if cellX s < Fin 0 \<or> Fin (real gridSize) \<le> cellX s \<or>
         cellY s < Fin 0 \<or> Fin (real gridSize) \<le> cellY s \<or>
         cellZ s < Fin 0 \<or> Fin (real gridSize) \<le> cellZ s
      then
        (if Fin (real gridSize) * Fin 1.5 < curDist s then None
         else cpu_loop grid gridSize stp delta (n - 1) (cpu_advance stp delta s))
      else
        (case ta_get grid (cellX s + cellY s * Fin (real gridSize)
                     + cellZ s * Fin (real gridSize) * Fin (real gridSize)) of
              None \<Rightarrow> cpu_loop grid gridSize stp delta (n - 1) (cpu_advance stp delta s)
            | Some voxel \<Rightarrow>
                if 0 < voxel
                then Some \<lparr>pos = (cellX s, cellY s, cellZ s), normal = curNormal s,
                            voxelId = voxel, t = curDist s\<rparr>
                else cpu_loop grid gridSize stp delta (n - 1) (cpu_advance stp delta s)))"
  by (cases n) (simp_all add: Let_def split: option.splits)

lemma gpu_loop_unfold:
  "0 < n \<Longrightarrow> gpu_loop grid stp tDelta n s =
     (if cellX s < Fin 0 \<or> Fin 32 \<le> cellX s \<or>
         cellY s < Fin 0 \<or> Fin 32 \<le> cellY s \<or>
         cellZ s < Fin 0 \<or> Fin 32 \<le> cellZ s
      then
        (if Fin 100 < curDist s then None
         else if Fin 100 < curDist (gpu_advance stp tDelta s) then None
              else gpu_loop grid stp tDelta (n - 1) (gpu_advance stp tDelta s))
      else
        (if 0 < texel_id grid s
            then Some ((cellX s, cellY s, cellZ s),
                       \<lparr>vh_t = curDist s, vh_normal = curNormal s, vh_id = texel_id grid s\<rparr>)
            else if Fin 100 < curDist (gpu_advance stp tDelta s) then None
                 else gpu_loop grid stp tDelta (n - 1) (gpu_advance stp tDelta s)))"
  by (cases n) (simp_all add: Let_def)

lemma length_emptyGrid: "length emptyGrid = 32768"
  by (simp add: emptyGrid_def)

lemma nth_emptyGrid: "k < 32768 \<Longrightarrow> emptyGrid ! k = 0"
  by (simp add: emptyGrid_def)

lemmas scene_simps =
  cpu_loop_unfold gpu_loop_unfold intersectVoxels_def gpu_march_def Let_def minus_number_def
  texel_id_def ta_get_def length_emptyGrid nth_emptyGrid nth_list_update

section \<open>Properties of the sphere test\<close>

text \<open>
  With the origin strictly inside the sphere the near root is negative. The shader's
  routine returns it all the same, and its callers (\<^verbatim>\<open>sT > 0.0\<close>) take it for a miss.
\<close>

lemma glsl_sphere_inside_near_root:
  fixes ox oy oz dx dy dz cx cy cz r :: real
  defines "b \<equiv> (ox - cx) * dx + (oy - cy) * dy + (oz - cz) * dz"
      and "c \<equiv> (ox - cx) * (ox - cx) + (oy - cy) * (oy - cy) + (oz - cz) * (oz - cz) - r * r"
  assumes inside: "c < 0"
  shows "intersectSphere_glsl (Fin ox, Fin oy, Fin oz) (Fin dx, Fin dy, Fin dz) (Fin cx, Fin cy, Fin cz) (Fin r)
           = Fin (- b - sqrt (b * b - c))"
    and "- b - sqrt (b * b - c) < 0"
proof -
  have h: "0 < b * b - c" using inside by (smt (verit) zero_le_square)
  have "b * b < b * b - c" using inside by simp
  then have "sqrt (b * b) < sqrt (b * b - c)" by (rule real_sqrt_less_mono)
  then have big: "\<bar>b\<bar> < sqrt (b * b - c)" by simp
  then show near: "- b - sqrt (b * b - c) < 0" by linarith
  show "intersectSphere_glsl (Fin ox, Fin oy, Fin oz) (Fin dx, Fin dy, Fin dz) (Fin cx, Fin cy, Fin cz) (Fin r)
           = Fin (- b - sqrt (b * b - c))"
    using h
    by (simp add: intersectSphere_glsl_def minus_number_def Let_def b_def c_def algebra_simps)
qed

text \<open>
  C2. The claim gives both routines the policy near root, else far root, else miss. The
  CPU routine has it. The shader's routine has no far root: for a camera at \<open>(17, 6, 16)\<close>
  looking along +x, inside the shader's own sphere (centre \<open>(16, 6, 16)\<close>, radius 4), the CPU
  routine returns the far root 3 and the shader's routine returns the near root -5, which
  \<^verbatim>\<open>map\<close> and \<^verbatim>\<open>traceShadow\<close> discard.
\<close>

theorem glsl_sphere_no_far_root:
  "intersectSphere (Fin 17, Fin 6, Fin 16) (Fin 1, Fin 0, Fin 0) (Fin 16, Fin 6, Fin 16) (Fin 4)
     = Some (Fin 3) \<and>
   intersectSphere_glsl (Fin 17, Fin 6, Fin 16) (Fin 1, Fin 0, Fin 0) (Fin 16, Fin 6, Fin 16) (Fin 4)
     = Fin (- 5)"
proof -
  have "sqrt 16 = 4" using real_sqrt_abs [of 4] by simp
  then show ?thesis
    by (simp add: intersectSphere_def intersectSphere_glsl_def round64_simps minus_number_def)
qed

section \<open>Properties of the cascade\<close>

lemma gpu_advance_eq_cpu_advance: "gpu_advance stp delta s = cpu_advance stp delta s"
  by (cases stp; cases delta) simp

lemma not_less_number: "a \<noteq> NaN \<Longrightarrow> b \<noteq> NaN \<Longrightarrow> \<not> a < b \<longleftrightarrow> b \<le> (a::number)"
  by (cases a; cases b) auto

lemma less_number_trans: "a < b \<Longrightarrow> b < c \<Longrightarrow> a < (c::number)"
  by (cases a; cases b; cases c) simp_all

lemma less_number_between: "a < c \<Longrightarrow> b \<noteq> NaN \<Longrightarrow> a < b \<or> b < (c::number)"
  by (cases a; cases b; cases c) (simp_all, linarith)

lemma cpu_advance_cascade:
  assumes "sideDistX s \<noteq> NaN" and "sideDistY s \<noteq> NaN" and "sideDistZ s \<noteq> NaN"
  shows "cpu_advance stp delta s =
           (if sideDistZ s \<le> sideDistX s \<and> sideDistZ s \<le> sideDistY s then advanceZ stp delta s
            else if sideDistY s \<le> sideDistX s then advanceY stp delta s
            else advanceX stp delta s)"
proof -
  obtain stepX stepY stepZ dX dY dZ where p: "stp = (stepX, stepY, stepZ)" "delta = (dX, dY, dZ)"
    by (metis prod_cases3)
  define bxy bxz byz where "bxy = (sideDistX s < sideDistY s)"
    and "bxz = (sideDistX s < sideDistZ s)" and "byz = (sideDistY s < sideDistZ s)"
  have le: "sideDistZ s \<le> sideDistX s \<longleftrightarrow> \<not> bxz" "sideDistZ s \<le> sideDistY s \<longleftrightarrow> \<not> byz"
           "sideDistY s \<le> sideDistX s \<longleftrightarrow> \<not> bxy"
    using not_less_number assms by (simp_all add: bxy_def bxz_def byz_def)
  have t1: "bxy \<Longrightarrow> byz \<Longrightarrow> bxz"
    unfolding bxy_def bxz_def byz_def by (rule less_number_trans)
  have t2: "bxz \<Longrightarrow> bxy \<or> byz"
    unfolding bxy_def bxz_def byz_def using less_number_between [OF _ assms(2)] by blast
  have "cpu_advance stp delta s =
          (if bxy then (if bxz then advanceX stp delta s else advanceZ stp delta s)
           else (if byz then advanceY stp delta s else advanceZ stp delta s))"
    unfolding p bxy_def bxz_def byz_def by simp
  also have "\<dots> = (if \<not> bxz \<and> \<not> byz then advanceZ stp delta s
            else if \<not> bxy then advanceY stp delta s
            else advanceX stp delta s)"
    using t1 t2 by (cases bxy; cases bxz; cases byz) simp_all
  finally show ?thesis unfolding le .
qed

text \<open>
  C3 as amended. Both cascades are the same function of the state. As long as no
  \<^verbatim>\<open>sideDist\<close> is \<open>NaN\<close>, the loop advances along an axis with the smallest value; when
  the smallest value is shared, Z wins against both X and Y, and Y wins against X. X is
  taken only when it is strictly smaller than the two others.
\<close>

theorem tie_break_z_then_y:
  assumes "sideDistX s \<noteq> NaN" and "sideDistY s \<noteq> NaN" and "sideDistZ s \<noteq> NaN"
  shows "gpu_advance stp delta s = cpu_advance stp delta s \<and>
         cpu_advance stp delta s =
           (if sideDistZ s \<le> sideDistX s \<and> sideDistZ s \<le> sideDistY s then advanceZ stp delta s
            else if sideDistY s \<le> sideDistX s then advanceY stp delta s
            else advanceX stp delta s)"
  using cpu_advance_cascade [OF assms] gpu_advance_eq_cpu_advance by simp

theorem tie_break_z_then_y_witness:
  "cpu_advance (Fin 1, Fin 1, Fin 1) (Fin 1, Fin 1, Fin 2)
      \<lparr>cellX = Fin 0, cellY = Fin 0, cellZ = Fin 0,
       sideDistX = Fin 3, sideDistY = Fin 4, sideDistZ = Fin 3,
       curNormal = (Fin 0, Fin 0, Fin 0), curDist = Fin 0\<rparr> =
      \<lparr>cellX = Fin 0, cellY = Fin 0, cellZ = Fin 1,
       sideDistX = Fin 3, sideDistY = Fin 4, sideDistZ = Fin 5,
       curNormal = (Fin 0, Fin 0, Fin (- 1)), curDist = Fin 3\<rparr> \<and>
   gpu_advance (Fin 1, Fin 1, Fin 1) (Fin 1, Fin 1, Fin 2)
      \<lparr>cellX = Fin 0, cellY = Fin 0, cellZ = Fin 0,
       sideDistX = Fin 3, sideDistY = Fin 4, sideDistZ = Fin 3,
       curNormal = (Fin 0, Fin 0, Fin 0), curDist = Fin 0\<rparr> =
      \<lparr>cellX = Fin 0, cellY = Fin 0, cellZ = Fin 1,
       sideDistX = Fin 3, sideDistY = Fin 4, sideDistZ = Fin 5,
       curNormal = (Fin 0, Fin 0, Fin (- 1)), curDist = Fin 3\<rparr>"
  using tie_break_z_then_y [of "\<lparr>cellX = Fin 0, cellY = Fin 0, cellZ = Fin 0,
       sideDistX = Fin 3, sideDistY = Fin 4, sideDistZ = Fin 3,
       curNormal = (Fin 0, Fin 0, Fin 0), curDist = Fin 0\<rparr>"
       "(Fin 1, Fin 1, Fin 1)" "(Fin 1, Fin 1, Fin 2)"]
  by simp

lemma gridCorner_simps:
  "length gridCorner = 32768" "gridCorner ! 0 = 0" "gridCorner ! 32 = 9" "gridCorner ! Suc 0 = 9"
  by (simp_all add: gridCorner_def emptyGrid_def)

text \<open>
  C3 as stated fails. The ray from \<open>(0.5, 0.5, 0.5)\<close> with direction \<open>(1, 1, 0.5)\<close> starts
  with \<^verbatim>\<open>sideDistX = sideDistY = 0.5 < sideDistZ = 1\<close>. The cascade advances along Y, where
  priority X would advance along X; with voxels in \<open>(1, 0, 0)\<close> and \<open>(0, 1, 0)\<close> both
  traversals report the cell \<open>(0, 1, 0)\<close>.
\<close>

theorem tie_x_y_is_won_by_y:
  "cpu_start (Fin 0.5, Fin 0.5, Fin 0.5) (Fin 1, Fin 1, Fin 0.5) =
     ((Fin 1, Fin 1, Fin 1), (Fin 1, Fin 1, Fin 2),
      \<lparr>cellX = Fin 0, cellY = Fin 0, cellZ = Fin 0,
       sideDistX = Fin 0.5, sideDistY = Fin 0.5, sideDistZ = Fin 1,
       curNormal = (Fin 0, Fin 0, Fin 0), curDist = Fin 0\<rparr>) \<and>
   cpu_advance (Fin 1, Fin 1, Fin 1) (Fin 1, Fin 1, Fin 2)
      \<lparr>cellX = Fin 0, cellY = Fin 0, cellZ = Fin 0,
       sideDistX = Fin 0.5, sideDistY = Fin 0.5, sideDistZ = Fin 1,
       curNormal = (Fin 0, Fin 0, Fin 0), curDist = Fin 0\<rparr> =
      \<lparr>cellX = Fin 0, cellY = Fin 1, cellZ = Fin 0,
       sideDistX = Fin 0.5, sideDistY = Fin 1.5, sideDistZ = Fin 1,
       curNormal = (Fin 0, Fin (- 1), Fin 0), curDist = Fin 0.5\<rparr> \<and>
   spec_advance (Fin 1, Fin 1, Fin 1) (Fin 1, Fin 1, Fin 2)
      \<lparr>cellX = Fin 0, cellY = Fin 0, cellZ = Fin 0,
       sideDistX = Fin 0.5, sideDistY = Fin 0.5, sideDistZ = Fin 1,
       curNormal = (Fin 0, Fin 0, Fin 0), curDist = Fin 0\<rparr> =
      \<lparr>cellX = Fin 1, cellY = Fin 0, cellZ = Fin 0,
       sideDistX = Fin 1.5, sideDistY = Fin 0.5, sideDistZ = Fin 1,
       curNormal = (Fin (- 1), Fin 0, Fin 0), curDist = Fin 0.5\<rparr> \<and>
   intersectVoxels (Fin 0.5, Fin 0.5, Fin 0.5) (Fin 1, Fin 1, Fin 0.5) gridCorner 32 =
      Some \<lparr>pos = (Fin 0, Fin 1, Fin 0), normal = (Fin 0, Fin (- 1), Fin 0),
            voxelId = 9, t = Fin 0.5\<rparr> \<and>
   gpu_march 64 gridCorner (Fin 0.5, Fin 0.5, Fin 0.5) (Fin 1, Fin 1, Fin 0.5) =
      Some ((Fin 0, Fin 1, Fin 0),
            \<lparr>vh_t = Fin 0.5, vh_normal = (Fin 0, Fin (- 1), Fin 0), vh_id = 9\<rparr>)"
  by (simp add: spec_advance_def scene_simps gridCorner_simps)

lemma gridAhead_simps:
  "length gridAhead = 32768" "gridAhead ! 0 = 0" "gridAhead ! Suc 0 = 9"
  by (simp_all add: gridAhead_def emptyGrid_def)

section \<open>A direction with a zero component\<close>

text \<open>
  C4. The ray from \<open>(0.5, 0.5, 0)\<close> along +x has \<^verbatim>\<open>rd[2] = 0\<close> and an integral \<^verbatim>\<open>ro[2]\<close>:
  \<^verbatim>\<open>deltaDistZ\<close> is infinite and \<^verbatim>\<open>sideDistZ = 0 * Infinity\<close> is \<open>NaN\<close>. Every comparison with
  it is false, so the cascade falls through to its last branch: the loop advances along Z with
  \<^verbatim>\<open>dist = NaN\<close>, leaves the grid and returns \<^verbatim>\<open>null\<close>, although the voxel in \<open>(1, 0, 0)\<close> is
  straight ahead. The shader's \<^verbatim>\<open>tMax\<close> is \<open>0.5 * Infinity\<close>, infinite, and it hits the voxel.
\<close>

theorem cpu_traversal_nan_on_zero_component:
  "cpu_start (Fin 0.5, Fin 0.5, Fin 0) (Fin 1, Fin 0, Fin 0) =
     ((Fin 1, Fin (- 1), Fin (- 1)), (Fin 1, PInf, PInf),
      \<lparr>cellX = Fin 0, cellY = Fin 0, cellZ = Fin 0,
       sideDistX = Fin 0.5, sideDistY = PInf, sideDistZ = NaN,
       curNormal = (Fin 0, Fin 0, Fin 0), curDist = Fin 0\<rparr>) \<and>
   cpu_advance (Fin 1, Fin (- 1), Fin (- 1)) (Fin 1, PInf, PInf)
      \<lparr>cellX = Fin 0, cellY = Fin 0, cellZ = Fin 0,
       sideDistX = Fin 0.5, sideDistY = PInf, sideDistZ = NaN,
       curNormal = (Fin 0, Fin 0, Fin 0), curDist = Fin 0\<rparr> =
      \<lparr>cellX = Fin 0, cellY = Fin 0, cellZ = Fin (- 1),
       sideDistX = Fin 0.5, sideDistY = PInf, sideDistZ = NaN,
       curNormal = (Fin 0, Fin 0, Fin 1), curDist = NaN\<rparr> \<and>
   intersectVoxels (Fin 0.5, Fin 0.5, Fin 0) (Fin 1, Fin 0, Fin 0) gridAhead 32 = None \<and>
   gpu_march 64 gridAhead (Fin 0.5, Fin 0.5, Fin 0) (Fin 1, Fin 0, Fin 0) =
      Some ((Fin 1, Fin 0, Fin 0),
            \<lparr>vh_t = Fin 0.5, vh_normal = (Fin (- 1), Fin 0, Fin 0), vh_id = 9\<rparr>)"
  by (simp add: scene_simps gridAhead_simps)

text \<open>
  Where the NaN comes from: on an axis whose direction component is zero, the CPU's
  \<^verbatim>\<open>sideDist\<close> is the fractional part of the origin times infinity, which is \<open>NaN\<close> at an
  integral coordinate and infinite elsewhere. The shader's \<^verbatim>\<open>tMax\<close> is infinite in both cases.
\<close>

lemma cpu_sideDist_zero_component:
  "sideDistX (snd (snd (cpu_start (Fin a, r1, r2) (Fin 0, d1, d2)))) =
     (if a \<in> \<int> then NaN else PInf)"
  "sideDistY (snd (snd (cpu_start (r0, Fin a, r2) (d0, Fin 0, d2)))) =
     (if a \<in> \<int> then NaN else PInf)"
  "sideDistZ (snd (snd (cpu_start (r0, r1, Fin a) (d0, d1, Fin 0)))) =
     (if a \<in> \<int> then NaN else PInf)"
proof -
  have int: "a \<in> \<int> \<longleftrightarrow> a = real_of_int \<lfloor>a\<rfloor>"
    by (metis Ints_of_int floor_of_int Ints_cases)
  have lt: "a \<noteq> real_of_int \<lfloor>a\<rfloor> \<Longrightarrow> real_of_int \<lfloor>a\<rfloor> < a"
    by (metis less_eq_real_def of_int_floor_le)
  show
    "sideDistX (snd (snd (cpu_start (Fin a, r1, r2) (Fin 0, d1, d2)))) =
       (if a \<in> \<int> then NaN else PInf)"
    "sideDistY (snd (snd (cpu_start (r0, Fin a, r2) (d0, Fin 0, d2)))) =
       (if a \<in> \<int> then NaN else PInf)"
    "sideDistZ (snd (snd (cpu_start (r0, r1, Fin a) (d0, d1, Fin 0)))) =
       (if a \<in> \<int> then NaN else PInf)"
    using lt by (auto simp: Let_def minus_number_def int)
qed

lemma gpu_sideDist_zero_component:
  "sideDistX (snd (snd (gpu_start (Fin a, r1, r2) (Fin 0, d1, d2)))) = PInf"
  "sideDistY (snd (snd (gpu_start (r0, Fin a, r2) (d0, Fin 0, d2)))) = PInf"
  "sideDistZ (snd (snd (gpu_start (r0, r1, Fin a) (d0, d1, Fin 0)))) = PInf"
  by (simp_all add: Let_def minus_number_def)

text \<open>
  A \<open>NaN\<close> on the Y axis does not reach \<^verbatim>\<open>dist\<close>, but it sends every iteration into the
  \<^verbatim>\<open>else\<close> branch of the outer comparison, so that the loop never advances along X: from
  \<open>(0.5, 0, 0.5)\<close> with direction \<open>(1, 0, 0.5)\<close> the CPU traversal walks along Z and misses
  the voxel in \<open>(1, 0, 0)\<close>, which the shader hits.
\<close>

lemma cpu_traversal_skips_x_on_nan_y:
  "cpu_start (Fin 0.5, Fin 0, Fin 0.5) (Fin 1, Fin 0, Fin 0.5) =
     ((Fin 1, Fin (- 1), Fin 1), (Fin 1, PInf, Fin 2),
      \<lparr>cellX = Fin 0, cellY = Fin 0, cellZ = Fin 0,
       sideDistX = Fin 0.5, sideDistY = NaN, sideDistZ = Fin 1,
       curNormal = (Fin 0, Fin 0, Fin 0), curDist = Fin 0\<rparr>) \<and>
   cpu_advance (Fin 1, Fin (- 1), Fin 1) (Fin 1, PInf, Fin 2)
      \<lparr>cellX = Fin 0, cellY = Fin 0, cellZ = Fin 0,
       sideDistX = Fin 0.5, sideDistY = NaN, sideDistZ = Fin 1,
       curNormal = (Fin 0, Fin 0, Fin 0), curDist = Fin 0\<rparr> =
      \<lparr>cellX = Fin 0, cellY = Fin 0, cellZ = Fin 1,
       sideDistX = Fin 0.5, sideDistY = NaN, sideDistZ = Fin 3,
       curNormal = (Fin 0, Fin 0, Fin (- 1)), curDist = Fin 1\<rparr> \<and>
   intersectVoxels (Fin 0.5, Fin 0, Fin 0.5) (Fin 1, Fin 0, Fin 0.5) gridAhead 32 = None \<and>
   gpu_march 64 gridAhead (Fin 0.5, Fin 0, Fin 0.5) (Fin 1, Fin 0, Fin 0.5) =
      Some ((Fin 1, Fin 0, Fin 0),
            \<lparr>vh_t = Fin 0.5, vh_normal = (Fin (- 1), Fin 0, Fin 0), vh_id = 9\<rparr>)"
  by (simp add: scene_simps gridAhead_def)

section \<open>Properties of the edit handlers\<close>

text \<open>
  C6. With ten lights in the collection an edit with the Light tool changes nothing,
  neither through the handler nor through a click.
\<close>

theorem light_capacity:
  assumes "length (lights s) = 10" and "tool s = LIGHT"
  shows "handleBlockAction s hitPos nrm = s \<and> performRaycastAction s = s"
proof -
  have a: "handleBlockAction s h n = s" for h n
    using assms by (simp add: handleBlockAction_def Let_def)
  have b: "handleLightClick s i = s" for i
    using assms by (simp add: handleLightClick_def)
  show ?thesis
    by (simp add: a b performRaycastAction_def Let_def split: prod.splits option.splits)
qed

theorem light_capacity_witness:
  "length (lights sceneTenLights) = 10 \<and> tool sceneTenLights = LIGHT \<and>
   handleBlockAction sceneTenLights (Fin 8, Fin 0, Fin 8) (Fin 0, Fin 1, Fin 0) = sceneTenLights \<and>
   performRaycastAction sceneTenLights = sceneTenLights"
proof -
  have "length (lights sceneTenLights) = 10" "tool sceneTenLights = LIGHT"
    by (simp_all add: sceneTenLights_def)
  then show ?thesis
    using light_capacity [of sceneTenLights "(Fin 8, Fin 0, Fin 8)" "(Fin 0, Fin 1, Fin 0)"]
    by simp
qed

text \<open>Below the capacity the Light tool does append a light.\<close>

lemma light_added_below_capacity:
  assumes "length (lights s) < 10" and "tool s = LIGHT"
  shows "length (lights (handleBlockAction s hitPos nrm)) = Suc (length (lights s))"
    and "gridData (handleBlockAction s hitPos nrm) = gridData s"
  using assms by (simp_all add: handleBlockAction_def Let_def)

lemma filter_index_below: "j < k \<Longrightarrow> filter_index j k ls = ls"
  by (induction ls arbitrary: k) auto

lemma filter_index_take_drop:
  "n < length ls \<Longrightarrow> filter_index (k + int n) k ls = take n ls @ drop (Suc n) ls"
proof (induction ls arbitrary: k n)
  case Nil
  then show ?case by simp
next
  case (Cons l ls)
  show ?case
  proof (cases n)
    case 0
    then show ?thesis by (simp add: filter_index_below)
  next
    case (Suc m)
    with Cons.prems have m: "m < length ls" by simp
    have e: "k + int n = (k + 1) + int m" using Suc by simp
    have "k \<noteq> k + int n" using Suc by simp
    then show ?thesis
      unfolding e using Cons.IH [OF m, of "k + 1"] Suc by simp
  qed
qed

lemma closestLight_range:
  "closestLight cp cd i ls (ci, d) = (ci', d') \<Longrightarrow> ci = - 1 \<or> (0 \<le> ci \<and> ci < i) \<Longrightarrow> 0 \<le> i
   \<Longrightarrow> ci' = - 1 \<or> (0 \<le> ci' \<and> ci' < i + int (length ls))"
proof (induction ls arbitrary: i ci d)
  case Nil
  then show ?case by auto
next
  case (Cons l ls)
  obtain cj e where step:
    "(case intersectSphere cp cd (position l) (literal 0.2) of
          None \<Rightarrow> (ci, d)
        | Some d' \<Rightarrow> if Fin 0 < d' \<and> d' < d then (i, d') else (ci, d)) = (cj, e)"
    by (meson surj_pair)
  then have cj: "cj = - 1 \<or> (0 \<le> cj \<and> cj < i + 1)"
    using Cons.prems(2,3) by (auto split: option.splits if_splits)
  from Cons.prems(1) step have "closestLight cp cd (i + 1) ls (cj, e) = (ci', d')" by simp
  from Cons.IH [OF this cj] Cons.prems(3) show ?case by auto
qed

text \<open>
  C10. When the click resolves to a light (a light was hit and its distance is below the
  voxel distance), the Block and the Light tool leave the whole state as it is; the Delete
  tool removes the light with that index from the collection and changes nothing else.
\<close>

theorem light_pick_only_delete_mutates:
  assumes pick: "closestLight (cameraPos s) (camDir s) 0 (lights s) (- 1, Fin 100.0) = (i, d)"
      and found: "i \<noteq> - 1"
      and nearer: "d < (case intersectVoxels (cameraPos s) (camDir s) (gridData s) GRID_SIZE of
                          Some h \<Rightarrow> t h | None \<Rightarrow> Fin 1000.0)"
  shows "(tool s = BLOCK \<or> tool s = LIGHT \<longrightarrow> performRaycastAction s = s) \<and>
         (tool s = DELETE \<longrightarrow>
            0 \<le> i \<and> nat i < length (lights s) \<and>
            performRaycastAction s =
              s\<lparr>lights := take (nat i) (lights s) @ drop (Suc (nat i)) (lights s)\<rparr>)"
proof -
  have act: "performRaycastAction s = handleLightClick s i"
    using pick found nearer by (simp add: performRaycastAction_def Let_def)
  from closestLight_range [OF pick] found
  have rng: "0 \<le> i" "nat i < length (lights s)" by auto
  have "filter_index (0 + int (nat i)) 0 (lights s) = take (nat i) (lights s) @ drop (Suc (nat i)) (lights s)"
    by (rule filter_index_take_drop [OF rng(2)])
  with rng(1) have flt: "filter_index i 0 (lights s) = take (nat i) (lights s) @ drop (Suc (nat i)) (lights s)"
    by simp
  show ?thesis
    using rng flt by (auto simp: act handleLightClick_def)
qed

lemma camDir_level: "yaw s = 0 \<Longrightarrow> pitch s = 0 \<Longrightarrow> camDir s = (Fin 0, Fin 0, Fin 1)"
  by (simp add: camDir_def Math_sin_def Math_cos_def round64_simps)

text \<open>
  The radius 0.2 of a light marker is not a binary64 value. What the evaluation of a pick
  needs of it and of its square is that they lie between 0 and 1.
\<close>

lemma round64_bounds:
  assumes "double lo" and "double hi" and "lo \<le> x" and "x \<le> hi"
  obtains v where "round64 x = Fin v" and "lo \<le> v" and "v \<le> hi"
  using round64_between [OF assms] by (cases "round64 x") (simp_all add: bounded_by_def)

lemma double_numeral: "(numeral w :: int) < 2 ^ 53 \<Longrightarrow> double (numeral w)"
  using double_of_int [of "numeral w"] by simp

lemma double_neg_numeral: "(numeral w :: int) < 2 ^ 53 \<Longrightarrow> double (- numeral w)"
  using double_of_int [of "- numeral w"] by simp

lemma double_one: "double 1"
  using double_of_int [of 1] by simp

lemma marker_radius_square:
  obtains v where "times64 (literal 0.2) (literal 0.2) = Fin v" and "0 \<le> v" and "v \<le> 1"
proof -
  obtain r where r: "round64 0.2 = Fin r" "0 \<le> r" "r \<le> 1"
    using round64_bounds [OF double_zero double_one, of "0.2"] by auto
  have "r * r \<le> 1 * 1" using r(2,3) by (intro mult_mono) simp_all
  then have "0 \<le> r * r" "r * r \<le> 1" using r(2) by simp_all
  then obtain v where "round64 (r * r) = Fin v" "0 \<le> v" "v \<le> 1"
    using round64_bounds [OF double_zero double_one, of "r * r"] by auto
  then show thesis using that r(1) by (simp add: times64_def literal_def)
qed

lemma sceneLightAhead_pick:
  obtains d where
    "closestLight (cameraPos sceneLightAhead) (camDir sceneLightAhead) 0 (lights sceneLightAhead)
       (- 1, Fin 100.0) = (0, Fin d)" and "3 \<le> d" and "d \<le> 4"
proof -
  obtain v where v: "times64 (literal 0.2) (literal 0.2) = Fin v" "0 \<le> v" "v \<le> 1"
    by (rule marker_radius_square)
  have dn: "double 15" "double 16" "double 3" "double 4" by (simp_all add: double_numeral)
  obtain c where c: "round64 (16 - v) = Fin c" "15 \<le> c" "c \<le> 16"
    using round64_bounds [OF dn(1,2), of "16 - v"] v(2,3) by auto
  obtain h where h: "round64 (16 - c) = Fin h" "0 \<le> h" "h \<le> 1"
    using round64_bounds [OF double_zero double_one, of "16 - c"] c(2,3) by auto
  have "sqrt h \<le> sqrt 1" using h(3) by (rule real_sqrt_le_mono)
  then have "0 \<le> sqrt h" "sqrt h \<le> 1" using h(2) by simp_all
  then obtain q where q: "round64 (sqrt h) = Fin q" "0 \<le> q" "q \<le> 1"
    using round64_bounds [OF double_zero double_one, of "sqrt h"] by auto
  obtain d where d: "round64 (4 - q) = Fin d" "3 \<le> d" "d \<le> 4"
    using round64_bounds [OF dn(3,4), of "4 - q"] q(2,3) by auto
  have "intersectSphere (Fin 16, Fin 8, Fin 16) (Fin 0, Fin 0, Fin 1) (Fin 16, Fin 8, Fin 20)
          (literal 0.2) = Some (Fin d)"
    using h(2) d(2)
    by (simp add: intersectSphere_def Let_def round64_simps v(1) [simplified] c(1) h(1) q(1) d(1))
  then have "closestLight (cameraPos sceneLightAhead) (camDir sceneLightAhead) 0
               (lights sceneLightAhead) (- 1, Fin 100.0) = (0, Fin d)"
    using d(2,3) by (simp add: sceneLightAhead_def camDir_level)
  then show thesis using d(2,3) by (rule that)
qed

lemma sceneLightAhead_voxels:
  "intersectVoxels (cameraPos sceneLightAhead) (camDir sceneLightAhead) (gridData sceneLightAhead)
     GRID_SIZE = None"
  by (simp add: sceneLightAhead_def camDir_level GRID_SIZE_def scene_simps)

theorem light_pick_only_delete_mutates_witness:
  "performRaycastAction sceneLightAhead = sceneLightAhead\<lparr>lights := []\<rparr> \<and>
   performRaycastAction (sceneLightAhead\<lparr>tool := BLOCK\<rparr>) = sceneLightAhead\<lparr>tool := BLOCK\<rparr>"
proof -
  obtain d where pick: "closestLight (cameraPos sceneLightAhead) (camDir sceneLightAhead) 0
       (lights sceneLightAhead) (- 1, Fin 100.0) = (0, Fin d)" and dd: "3 \<le> d" "d \<le> 4"
    by (rule sceneLightAhead_pick)
  have d: "tool sceneLightAhead = DELETE" "lights sceneLightAhead \<noteq> []"
          "length (lights sceneLightAhead) = 1"
    by (simp_all add: sceneLightAhead_def)
  have near: "Fin d < (case intersectVoxels (cameraPos sceneLightAhead) (camDir sceneLightAhead)
                        (gridData sceneLightAhead) GRID_SIZE of Some h \<Rightarrow> t h | None \<Rightarrow> Fin 1000.0)"
    using dd by (simp add: sceneLightAhead_voxels)
  have a: "performRaycastAction sceneLightAhead = sceneLightAhead\<lparr>lights := []\<rparr>"
    using light_pick_only_delete_mutates [OF pick _ near] d by simp
  let ?b = "sceneLightAhead\<lparr>tool := BLOCK\<rparr>"
  have pb: "closestLight (cameraPos ?b) (camDir ?b) 0 (lights ?b) (- 1, Fin 100.0) = (0, Fin d)"
    using pick by (simp add: camDir_def)
  have nb: "Fin d < (case intersectVoxels (cameraPos ?b) (camDir ?b) (gridData ?b) GRID_SIZE of
                        Some h \<Rightarrow> t h | None \<Rightarrow> Fin 1000.0)"
    using sceneLightAhead_voxels dd by (simp add: camDir_def)
  have b: "performRaycastAction ?b = ?b"
    using light_pick_only_delete_mutates [OF pb _ nb] by simp
  show ?thesis using a b by simp
qed

section \<open>The Block tool and the Delete tool\<close>

lemma not_ge_of_le: "a \<le> Fin x \<Longrightarrow> x < y \<Longrightarrow> \<not> Fin y \<le> a"
  by (cases a) simp_all

lemma not_less_of_ge: "Fin y \<le> a \<Longrightarrow> \<not> a < Fin y"
  by (cases a) simp_all

text \<open>
  The sum of two integers, rounded, passes the bounds test of the Block tool exactly when
  the sum itself lies in the grid, and then nothing was rounded away.
\<close>

lemma round64_cell_range:
  "Fin 0 \<le> round64 (of_int c) \<and> round64 (of_int c) < Fin 32 \<longleftrightarrow> 0 \<le> c \<and> c < 32"
proof (cases "0 \<le> c \<and> c < 32")
  case True
  then have "round64 (of_int c) = Fin (of_int c)" by (intro round64_of_int) simp
  then show ?thesis using True by simp
next
  case False
  then consider "c \<le> - 1" | "32 \<le> c" by linarith
  then have "\<not> (Fin 0 \<le> round64 (of_int c) \<and> round64 (of_int c) < Fin 32)"
  proof cases
    case 1
    then have "real_of_int c \<le> - 1" by linarith
    moreover have "double (- 1)" using double_of_int [of "- 1"] by simp
    ultimately have "round64 (of_int c) \<le> Fin (- 1)" by (intro round64_le)
    then have "\<not> Fin 0 \<le> round64 (of_int c)" by (rule not_ge_of_le) simp
    then show ?thesis by blast
  next
    case 2
    then have "32 \<le> real_of_int c" by linarith
    then have "Fin 32 \<le> round64 (of_int c)" by (intro round64_ge double_numeral) simp_all
    then have "\<not> round64 (of_int c) < Fin 32" by (rule not_less_of_ge)
    then show ?thesis by blast
  qed
  then show ?thesis using False by blast
qed

lemma round64_cell:
  "0 \<le> c \<Longrightarrow> c < 32 \<Longrightarrow> round64 (of_int c) = Fin (of_int c)"
  by (intro round64_of_int) simp

lemma plus64_cells: "plus64 (Fin (of_int h)) (Fin (of_int n)) = round64 (of_int (h + n))"
  by (simp add: plus64_Fin)

lemma cell_centre:
  assumes "0 \<le> c" and "c < 32"
  shows "plus64 (Fin (of_int c)) (Fin (1 / 2)) = Fin (of_int c + 1 / 2)"
proof -
  have e: "real_of_int c + 1 / 2 = of_int (2 * c + 1) / 2" by simp
  have "plus64 (Fin (of_int c)) (Fin (1 / 2)) = round64 (of_int c + 1 / 2)" by (simp only: plus64_Fin)
  also have "\<dots> = round64 (of_int (2 * c + 1) / 2)" by (simp only: e)
  also have "\<dots> = Fin (of_int (2 * c + 1) / 2)" using assms by (intro round64_halves) simp
  also have "\<dots> = Fin (of_int c + 1 / 2)" by (simp only: e)
  finally show ?thesis .
qed

lemma times64_ints:
  "\<bar>a * b\<bar> < 2 ^ 53 \<Longrightarrow> times64 (Fin (of_int a)) (Fin (of_int b)) = Fin (of_int (a * b))"
  by (simp only: times64_Fin of_int_mult [symmetric] round64_of_int)

lemma plus64_ints:
  "\<bar>a + b\<bar> < 2 ^ 53 \<Longrightarrow> plus64 (Fin (of_int a)) (Fin (of_int b)) = Fin (of_int (a + b))"
  by (simp only: plus64_Fin of_int_add [symmetric] round64_of_int)

lemma idx_cell:
  assumes "0 \<le> tx" "tx < 32" "0 \<le> ty" "ty < 32" "0 \<le> tz" "tz < 32"
  shows "idx (cellVec (tx, ty, tz)) = Fin (of_int (tx + ty * 32 + tz * 1024))"
proof -
  have g: "Fin (real GRID_SIZE) = Fin (of_int 32)" by (simp add: GRID_SIZE_def)
  have a: "times64 (Fin (of_int ty)) (Fin (of_int 32)) = Fin (of_int (ty * 32))"
    using assms by (intro times64_ints) (simp add: abs_if)
  have b: "times64 (Fin (of_int tz)) (Fin (of_int 32)) = Fin (of_int (tz * 32))"
    using assms by (intro times64_ints) (simp add: abs_if)
  have c: "times64 (Fin (of_int (tz * 32))) (Fin (of_int 32)) = Fin (of_int (tz * 32 * 32))"
    using assms by (intro times64_ints) (simp add: abs_if)
  have d: "plus64 (Fin (of_int tx)) (Fin (of_int (ty * 32))) = Fin (of_int (tx + ty * 32))"
    using assms by (intro plus64_ints) (simp add: abs_if)
  have e: "plus64 (Fin (of_int (tx + ty * 32))) (Fin (of_int (tz * 32 * 32))) =
             Fin (of_int (tx + ty * 32 + tz * 32 * 32))"
    using assms by (intro plus64_ints) (simp add: abs_if)
  have "idx (cellVec (tx, ty, tz)) = Fin (of_int (tx + ty * 32 + tz * 32 * 32))"
    by (simp only: idx.simps cellVec.simps g a b c d e)
  then show ?thesis by simp
qed

lemma array_index_of_int:
  "0 \<le> i \<Longrightarrow> i < int n \<Longrightarrow> array_index n (Fin (of_int i)) = Some (nat i)"
  by simp

lemma cell_index_range:
  fixes tx ty tz :: int
  assumes "0 \<le> tx" "tx < 32" "0 \<le> ty" "ty < 32" "0 \<le> tz" "tz < 32"
  shows "0 \<le> tx + ty * 32 + tz * 1024" and "tx + ty * 32 + tz * 1024 < 32768"
  using assms by auto

text \<open>
  C8 as amended. A Block edit with hit cell \<open>h\<close> and face normal \<open>n\<close> aims at the cell
  \<open>h + n\<close>. The state is unchanged when that cell is outside \<open>[0, 32)\<^sup>3\<close>, or when the
  distance from its centre to the camera, as \<^verbatim>\<open>len\<close> computes it in binary64, is not
  above 1; otherwise the one element of the grid that belongs to the cell receives the
  mirror id 100 or the palette id \<^verbatim>\<open>selectedColorIdx + 1\<close>, and nothing else changes.
\<close>

theorem block_tool_edit_computed_distance:
  assumes "tool s = BLOCK" and "length (gridData s) = 32768"
  shows "handleBlockAction s (cellVec (hx, hy, hz)) (cellVec (nx, ny, nz)) =
     (let tx = hx + nx; ty = hy + ny; tz = hz + nz
      in if \<not> (0 \<le> tx \<and> tx < 32 \<and> 0 \<le> ty \<and> ty < 32 \<and> 0 \<le> tz \<and> tz < 32) then s
         else if \<not> Fin 1 < len (sub (Fin (of_int tx + 1 / 2), Fin (of_int ty + 1 / 2),
                                      Fin (of_int tz + 1 / 2)) (cameraPos s)) then s
         else s\<lparr>gridData := (gridData s)[nat (tx + ty * 32 + tz * 1024) :=
                   (if isMirrorSelected s then 100 else of_nat (selectedColorIdx s + 1))]\<rparr>)"
proof -
  define tx ty tz where "tx = hx + nx" and "ty = hy + ny" and "tz = hz + nz"
  define T where "T = add (cellVec (hx, hy, hz)) (cellVec (nx, ny, nz))"
  have T: "T = (round64 (of_int tx), round64 (of_int ty), round64 (of_int tz))"
    by (simp only: T_def cellVec.simps add.simps plus64_cells tx_def ty_def tz_def)
  have inb: "(Fin 0 \<le> fst T \<and> fst T < Fin (real GRID_SIZE) \<and>
              Fin 0 \<le> fst (snd T) \<and> fst (snd T) < Fin (real GRID_SIZE) \<and>
              Fin 0 \<le> snd (snd T) \<and> snd (snd T) < Fin (real GRID_SIZE))
             = (0 \<le> tx \<and> tx < 32 \<and> 0 \<le> ty \<and> ty < 32 \<and> 0 \<le> tz \<and> tz < 32)"
    unfolding T GRID_SIZE_def fst_conv snd_conv of_nat_numeral
    using round64_cell_range [of tx] round64_cell_range [of ty] round64_cell_range [of tz]
    by blast
  have bid: "blockId s = (if isMirrorSelected s then 100 else of_nat (selectedColorIdx s + 1))"
    by (simp add: blockId_def MIRROR_ID_def)
  have hb: "handleBlockAction s (cellVec (hx, hy, hz)) (cellVec (nx, ny, nz)) =
              s\<lparr>gridData :=
                 (if Fin 0 \<le> fst T \<and> fst T < Fin (real GRID_SIZE) \<and>
                     Fin 0 \<le> fst (snd T) \<and> fst (snd T) < Fin (real GRID_SIZE) \<and>
                     Fin 0 \<le> snd (snd T) \<and> snd (snd T) < Fin (real GRID_SIZE)
                  then (if Fin 1.0 < len (sub (add T (Fin 0.5, Fin 0.5, Fin 0.5)) (cameraPos s))
                        then ta_set (gridData s) (idx T) (blockId s) else gridData s)
                  else gridData s)\<rparr>"
    unfolding handleBlockAction_def T_def [symmetric] using assms(1) by (simp add: Let_def)
  show ?thesis
  proof (cases "0 \<le> tx \<and> tx < 32 \<and> 0 \<le> ty \<and> ty < 32 \<and> 0 \<le> tz \<and> tz < 32")
    case False
    have "handleBlockAction s (cellVec (hx, hy, hz)) (cellVec (nx, ny, nz)) = s"
      unfolding hb inb by (simp add: False)
    then show ?thesis using False by (simp add: Let_def tx_def ty_def tz_def)
  next
    case True
    then have Tc: "T = cellVec (tx, ty, tz)" by (simp add: T round64_cell)
    have ix: "idx T = Fin (of_int (tx + ty * 32 + tz * 1024))"
      unfolding Tc using True by (intro idx_cell) simp_all
    have p: "add T (Fin 0.5, Fin 0.5, Fin 0.5) =
               (Fin (of_int tx + 1 / 2), Fin (of_int ty + 1 / 2), Fin (of_int tz + 1 / 2))"
      unfolding Tc using True by (simp add: cell_centre)
    from True have "0 \<le> tx + ty * 32 + tz * 1024" "tx + ty * 32 + tz * 1024 < 32768"
      using cell_index_range by blast+
    then have wr: "ta_set (gridData s) (Fin (of_int (tx + ty * 32 + tz * 1024))) v
                = (gridData s)[nat (tx + ty * 32 + tz * 1024) := v]" for v
      unfolding ta_set_def using assms(2) by (simp only: array_index_of_int of_nat_numeral option.case)
    have "handleBlockAction s (cellVec (hx, hy, hz)) (cellVec (nx, ny, nz)) =
            (if \<not> Fin 1 < len (sub (Fin (of_int tx + 1 / 2), Fin (of_int ty + 1 / 2),
                                      Fin (of_int tz + 1 / 2)) (cameraPos s)) then s
             else s\<lparr>gridData := (gridData s)[nat (tx + ty * 32 + tz * 1024) :=
                   (if isMirrorSelected s then 100 else of_nat (selectedColorIdx s + 1))]\<rparr>)"
      unfolding hb inb p ix wr bid by (simp add: True)
    then show ?thesis using True by (simp add: Let_def tx_def ty_def tz_def)
  qed
qed

lemma sceneBlock_fields:
  "tool sceneBlock = BLOCK" "cameraPos sceneBlock = (Fin 8.5, Fin 0.5, Fin 4.5)"
  "camDir sceneBlock = (Fin 0, Fin 0, Fin 1)" "gridData sceneBlock = emptyGrid[8200 := 15]"
  "selectedColorIdx sceneBlock = 0" "\<not> isMirrorSelected sceneBlock"
  by (simp_all add: sceneBlock_def camDir_level)

lemma sceneBlock_grid:
  "length (emptyGrid[8200 := 15]) = 32768"
  "k < 32768 \<Longrightarrow> emptyGrid[8200 := 15] ! k = (if k = 8200 then 15 else 0)"
  by (simp_all add: emptyGrid_def)

theorem block_tool_edit_computed_distance_witness:
  "tool sceneBlock = BLOCK \<and> length (gridData sceneBlock) = 32768 \<and>
   len (sub (Fin (8 + 1 / 2), Fin (0 + 1 / 2), Fin (7 + 1 / 2)) (cameraPos sceneBlock)) = Fin 3 \<and>
   handleBlockAction sceneBlock (cellVec (8, 0, 8)) (cellVec (0, 0, - 1)) =
     sceneBlock\<lparr>gridData := (gridData sceneBlock)[7176 := 1]\<rparr>"
proof -
  have h: "tool sceneBlock = BLOCK" "length (gridData sceneBlock) = 32768"
          "\<not> isMirrorSelected sceneBlock" "selectedColorIdx sceneBlock = 0"
    by (simp_all add: sceneBlock_def emptyGrid_def)
  have s: "sqrt 9 = 3" using real_sqrt_abs [of 3] by simp
  have l: "len (sub (Fin (8 + 1 / 2), Fin (0 + 1 / 2), Fin (7 + 1 / 2)) (cameraPos sceneBlock)) = Fin 3"
    by (simp add: sceneBlock_fields len_def round64_simps s)
  show ?thesis
    using block_tool_edit_computed_distance [OF h(1,2), where hx = 8 and hy = 0 and hz = 8
                                               and nx = 0 and ny = 0 and nz = "- 1"] h l
    by (simp add: Let_def)
qed

text \<open>
  C8 as stated fails. With the camera at \<open>(1.5, 0.5 + 2 ^ (- 30), 0.5)\<close> the centre of the
  cell \<open>(0, 0, 0)\<close> is at distance \<open>sqrt (1 + 2 ^ (- 60))\<close>, which is more than 1, so the
  claim has the cell written. The sum \<open>1 + 2 ^ (- 60)\<close> rounds to 1, \<^verbatim>\<open>len\<close> returns 1,
  the test \<^verbatim>\<open>len > 1.0\<close> fails and the grid stays as it is.
\<close>

lemma overflow64_gt_one: "1 < overflow64"
  unfolding overflow64_def by (rule one_less_power) simp_all

lemma round64_one_plus_tiny: "round64 (1 + 1 / 2 ^ 60) = Fin 1"
  using overflow64_gt_one by (simp only: round64_def Let_def nearest64_example) simp

lemma len_grazing:
  assumes "round64 (- e) = Fin (- e)" and "round64 (e * e) = Fin (e * e)"
      and "round64 (1 + e * e) = Fin 1"
  shows "len (sub (Fin (1 / 2), Fin (1 / 2), Fin (1 / 2)) (Fin (3 / 2), Fin (1 / 2 + e), Fin (1 / 2)))
           = Fin 1"
  by (simp add: len_def round64_simps assms)

theorem block_not_placed_beyond_distance_one:
  "tool sceneGrazing = BLOCK \<and> length (gridData sceneGrazing) = 32768 \<and>
   cameraPos sceneGrazing = (Fin (3 / 2), Fin (1 / 2 + 1 / 2 ^ 30), Fin (1 / 2)) \<and>
   double (3 / 2) \<and> double (1 / 2 + 1 / 2 ^ 30) \<and> double (1 / 2) \<and>
   1 < sqrt ((0 + 1 / 2 - 3 / 2)\<^sup>2 + (0 + 1 / 2 - (1 / 2 + 1 / 2 ^ 30))\<^sup>2 + (0 + 1 / 2 - 1 / 2)\<^sup>2) \<and>
   len (sub (Fin (0 + 1 / 2), Fin (0 + 1 / 2), Fin (0 + 1 / 2)) (cameraPos sceneGrazing)) = Fin 1 \<and>
   handleBlockAction sceneGrazing (cellVec (0, 0, 1)) (cellVec (0, 0, - 1)) = sceneGrazing"
proof -
  define e :: real where "e = 1 / 2 ^ 30"
  have cam: "cameraPos sceneGrazing = (Fin (3 / 2), Fin (1 / 2 + e), Fin (1 / 2))"
    by (simp add: sceneGrazing_def e_def)
  have f: "tool sceneGrazing = BLOCK" "length (gridData sceneGrazing) = 32768"
          "lights sceneGrazing = []" "gridData sceneGrazing = emptyGrid"
    by (simp_all add: sceneGrazing_def emptyGrid_def)
  have "double (of_int (- 1) / 2 ^ 30)" by (rule double_div_pow2) simp_all
  then have r1: "round64 (- e) = Fin (- e)" by (simp add: double_def e_def)
  have d60: "round64 (1 / 2 ^ 60) = Fin (1 / 2 ^ 60)"
    using double_div_pow2 [of 1 60] by (simp add: double_def)
  have ee: "e * e = 1 / 2 ^ 60" by (simp add: e_def)
  have r2: "round64 (e * e) = Fin (e * e)" unfolding ee by (rule d60)
  have r3: "round64 (1 + e * e) = Fin 1" by (simp only: ee round64_one_plus_tiny)
  have l: "len (sub (Fin (1 / 2), Fin (1 / 2), Fin (1 / 2)) (cameraPos sceneGrazing)) = Fin 1"
    unfolding cam by (rule len_grazing [OF r1 r2 r3])
  have d: "double (3 / 2)" "double (1 / 2)" using double_halves [of 3] double_halves [of 1] by simp_all
  have "double (of_int (2 ^ 29 + 1) / 2 ^ 30)" by (rule double_div_pow2) simp_all
  then have d': "double (1 / 2 + 1 / 2 ^ 30)" by simp
  have far: "1 < sqrt ((0 + 1 / 2 - 3 / 2)\<^sup>2 + (0 + 1 / 2 - (1 / 2 + 1 / 2 ^ 30))\<^sup>2
                        + (0 + 1 / 2 - 1 / 2)\<^sup>2 :: real)"
    by simp
  have tgt: "add (cellVec (0, 0, 1)) (cellVec (0, 0, - 1)) = (Fin 0, Fin 0, Fin 0)"
    by (simp add: round64_simps)
  have ctr: "add (Fin 0, Fin 0, Fin 0) (Fin 0.5, Fin 0.5, Fin 0.5) = (Fin (1 / 2), Fin (1 / 2), Fin (1 / 2))"
    by (simp add: round64_simps)
  have same: "sceneGrazing\<lparr>gridData := gridData sceneGrazing, lights := lights sceneGrazing\<rparr>
                = sceneGrazing" by simp
  have act: "handleBlockAction sceneGrazing (cellVec (0, 0, 1)) (cellVec (0, 0, - 1)) = sceneGrazing"
    unfolding handleBlockAction_def tgt Let_def ctr l by (simp add: f(1) same)
  from f(1,2) cam d d' far l act show ?thesis by (simp add: e_def)
qed

subsection \<open>A hit has an empty cell in front of its face\<close>

text \<open>Adding a unit step and its opposite gives back the number, whatever it is.\<close>

lemma add_step_back:
  "a = 1 \<or> a = - 1 \<Longrightarrow> x + Fin a + (- Fin a) = x"
  by (cases x) auto

lemma add_zero_number: "x + Fin 0 = x"
  by (cases x) auto

lemma cpu_advance_back:
  assumes "unit_steps stp"
  shows "neighbour (cellX (cpu_advance stp delta s), cellY (cpu_advance stp delta s),
                    cellZ (cpu_advance stp delta s)) (curNormal (cpu_advance stp delta s))
           = (cellX s, cellY s, cellZ s)"
    and "curNormal (cpu_advance stp delta s) \<noteq> (Fin 0, Fin 0, Fin 0)"
proof -
  obtain a b c where stp: "stp = (Fin a, Fin b, Fin c)"
    and u: "a = 1 \<or> a = - 1" "b = 1 \<or> b = - 1" "c = 1 \<or> c = - 1"
    using assms unfolding unit_steps_def by blast
  obtain dx dy dz where delta: "delta = (dx, dy, dz)" by (metis prod_cases3)
  have bk: "cellX s + Fin a + Fin (- a) = cellX s" "cellY s + Fin b + Fin (- b) = cellY s"
           "cellZ s + Fin c + Fin (- c) = cellZ s"
    using add_step_back u by simp_all
  show "neighbour (cellX (cpu_advance stp delta s), cellY (cpu_advance stp delta s),
                   cellZ (cpu_advance stp delta s)) (curNormal (cpu_advance stp delta s))
           = (cellX s, cellY s, cellZ s)"
    unfolding stp delta by (simp add: bk add_zero_number)
  show "curNormal (cpu_advance stp delta s) \<noteq> (Fin 0, Fin 0, Fin 0)"
    unfolding stp delta using u by auto
qed

lemma cpu_loop_hit_prev:
  assumes "cpu_loop grid gs stp delta n s = Some h" and "unit_steps stp"
      and "curNormal s = (Fin 0, Fin 0, Fin 0) \<or>
           passed grid gs (neighbour (cellX s, cellY s, cellZ s) (curNormal s))"
  shows "(normal h = (Fin 0, Fin 0, Fin 0) \<and> curNormal s = (Fin 0, Fin 0, Fin 0) \<and>
          pos h = (cellX s, cellY s, cellZ s)) \<or>
         (normal h \<noteq> (Fin 0, Fin 0, Fin 0) \<and> passed grid gs (neighbour (pos h) (normal h)))"
  using assms
proof (induction n arbitrary: s)
  case 0
  then show ?case by simp
next
  case (Suc n)
  let ?s1 = "cpu_advance stp delta s"
  have prev: "neighbour (cellX ?s1, cellY ?s1, cellZ ?s1) (curNormal ?s1) = (cellX s, cellY s, cellZ s)"
       and nz: "curNormal ?s1 \<noteq> (Fin 0, Fin 0, Fin 0)"
    using cpu_advance_back [OF Suc.prems(2)] by blast+
  consider (hit) "h = \<lparr>pos = (cellX s, cellY s, cellZ s), normal = curNormal s,
                          voxelId = voxelId h, t = curDist s\<rparr>"
    | (go) "passed grid gs (cellX s, cellY s, cellZ s)" "cpu_loop grid gs stp delta n ?s1 = Some h"
    using Suc.prems(1) by (auto simp: Let_def split: if_splits option.splits)
  then show ?case
  proof cases
    case hit
    then have "pos h = (cellX s, cellY s, cellZ s)" "normal h = curNormal s"
      by (metis Hit.select_convs(1), metis Hit.select_convs(2))
    with Suc.prems(3) show ?thesis by auto
  next
    case go
    have "curNormal ?s1 = (Fin 0, Fin 0, Fin 0) \<or>
          passed grid gs (neighbour (cellX ?s1, cellY ?s1, cellZ ?s1) (curNormal ?s1))"
      using go(1) prev by simp
    from Suc.IH [OF go(2) Suc.prems(2) this] nz show ?thesis by auto
  qed
qed

lemma cpu_start_unit_steps: "cpu_start ro rd = (stp, delta, s) \<Longrightarrow> unit_steps stp"
  by (cases ro; cases rd) (auto simp: unit_steps_def Let_def)

lemma cpu_start_state:
  "cpu_start (r0, r1, r2) rd = (stp, delta, s) \<Longrightarrow>
     curNormal s = (Fin 0, Fin 0, Fin 0) \<and>
     (cellX s, cellY s, cellZ s) = (Math_floor r0, Math_floor r1, Math_floor r2)"
  by (cases rd) (auto simp: Let_def)

lemma intersectVoxels_hit_prev:
  assumes "intersectVoxels (r0, r1, r2) rd grid gs = Some h"
  shows "(normal h = (Fin 0, Fin 0, Fin 0) \<and> pos h = (Math_floor r0, Math_floor r1, Math_floor r2)) \<or>
         (normal h \<noteq> (Fin 0, Fin 0, Fin 0) \<and> passed grid gs (neighbour (pos h) (normal h)))"
proof -
  obtain stp delta s where st: "cpu_start (r0, r1, r2) rd = (stp, delta, s)"
    by (metis prod_cases3)
  with assms have lp: "cpu_loop grid gs stp delta (gs * 2) s = Some h"
    by (simp add: intersectVoxels_def Let_def)
  from cpu_loop_hit_prev [OF lp cpu_start_unit_steps [OF st]] cpu_start_state [OF st]
  show ?thesis by auto
qed

subsection \<open>A hit reports a cell of the grid and a face normal\<close>

lemma whole_floor: "whole (Math_floor a)"
  by (cases a) (simp_all add: whole_def)

lemma whole_step: "whole x \<Longrightarrow> a = 1 \<or> a = - 1 \<Longrightarrow> whole (x + Fin a)"
  by (cases x) (auto simp: whole_def)

lemma unit_normal_zero: "unit_normal (Fin 0, Fin 0, Fin 0)"
  unfolding unit_normal_def by (rule exI [of _ 0], rule exI [of _ 0], rule exI [of _ 0]) simp

lemma unit_normal_axis:
  assumes "a = 1 \<or> a = - 1"
  shows "unit_normal (Fin (- a), Fin 0, Fin 0)" "unit_normal (Fin 0, Fin (- a), Fin 0)"
        "unit_normal (Fin 0, Fin 0, Fin (- a))"
proof -
  obtain i :: int where i: "a = of_int i" "\<bar>i\<bar> \<le> 1"
    using assms by (metis abs_1 abs_minus of_int_1 of_int_minus order_refl)
  show "unit_normal (Fin (- a), Fin 0, Fin 0)"
    unfolding unit_normal_def using i
    by (intro exI [of _ "- i"] exI [of _ 0] conjI) simp_all
  show "unit_normal (Fin 0, Fin (- a), Fin 0)"
    unfolding unit_normal_def using i
    by (intro exI [of _ "- i"] exI [of _ 0] conjI) simp_all
  show "unit_normal (Fin 0, Fin 0, Fin (- a))"
    unfolding unit_normal_def using i
    by (intro exI [of _ "- i"] exI [of _ 0] conjI) simp_all
qed

lemma cpu_advance_whole:
  assumes "unit_steps stp" and "whole (cellX s)" and "whole (cellY s)" and "whole (cellZ s)"
  shows "whole (cellX (cpu_advance stp delta s))" "whole (cellY (cpu_advance stp delta s))"
        "whole (cellZ (cpu_advance stp delta s))" "unit_normal (curNormal (cpu_advance stp delta s))"
proof -
  obtain a b c where stp: "stp = (Fin a, Fin b, Fin c)"
    and u: "a = 1 \<or> a = - 1" "b = 1 \<or> b = - 1" "c = 1 \<or> c = - 1"
    using assms(1) unfolding unit_steps_def by blast
  obtain dx dy dz where delta: "delta = (dx, dy, dz)" by (metis prod_cases3)
  note w = whole_step [OF assms(2) u(1)] whole_step [OF assms(3) u(2)] whole_step [OF assms(4) u(3)]
  note n = unit_normal_axis(1) [OF u(1)] unit_normal_axis(2) [OF u(2)] unit_normal_axis(3) [OF u(3)]
  show "whole (cellX (cpu_advance stp delta s))" "whole (cellY (cpu_advance stp delta s))"
       "whole (cellZ (cpu_advance stp delta s))" "unit_normal (curNormal (cpu_advance stp delta s))"
    unfolding stp delta using assms(2-4) w n by simp_all
qed

lemma index_finite:
  "x + y * Fin g + z * Fin g * Fin g = Fin v \<Longrightarrow> \<exists>a b c. x = Fin a \<and> y = Fin b \<and> z = Fin c"
  by (cases x; cases y; cases z) (simp_all split: if_splits)

lemma whole_in_range:
  assumes "whole (Fin a)" and "\<not> Fin a < Fin 0" and "\<not> Fin (real gs) \<le> Fin a"
  obtains i where "a = of_int i" and "0 \<le> i" and "i < int gs"
proof -
  from assms(1) obtain i where i: "a = of_int i" by (auto simp: whole_def elim: Ints_cases)
  have "0 \<le> i" "i < int gs" using assms(2,3) i by simp_all
  with i show thesis by (rule that)
qed

lemma cpu_loop_hit_cell:
  assumes "cpu_loop grid gs stp delta n s = Some h" and "unit_steps stp"
      and "whole (cellX s)" and "whole (cellY s)" and "whole (cellZ s)"
      and "unit_normal (curNormal s)"
  shows "(\<exists>i j k. pos h = cellVec (i, j, k) \<and> 0 \<le> i \<and> i < int gs \<and> 0 \<le> j \<and> j < int gs \<and>
                   0 \<le> k \<and> k < int gs) \<and> unit_normal (normal h)"
  using assms
proof (induction n arbitrary: s)
  case 0
  then show ?case by simp
next
  case (Suc n)
  let ?s1 = "cpu_advance stp delta s"
  let ?i = "cellX s + cellY s * Fin (real gs) + cellZ s * Fin (real gs) * Fin (real gs)"
  consider (hit) "h = \<lparr>pos = (cellX s, cellY s, cellZ s), normal = curNormal s,
                          voxelId = voxelId h, t = curDist s\<rparr>"
                 "\<not> (cellX s < Fin 0 \<or> Fin (real gs) \<le> cellX s \<or>
                     cellY s < Fin 0 \<or> Fin (real gs) \<le> cellY s \<or>
                     cellZ s < Fin 0 \<or> Fin (real gs) \<le> cellZ s)"
                 "ta_get grid ?i \<noteq> None"
    | (go) "cpu_loop grid gs stp delta n ?s1 = Some h"
    using Suc.prems(1) by (auto simp: Let_def split: if_splits option.splits)
  then show ?case
  proof cases
    case hit
    have ph: "pos h = (cellX s, cellY s, cellZ s)" and nh: "normal h = curNormal s"
      using hit(1) by (metis Hit.select_convs(1), metis Hit.select_convs(2))
    from hit(3) obtain v where "?i = Fin v"
      by (cases ?i) (simp_all add: ta_get_def)
    then obtain a b c where f: "cellX s = Fin a" "cellY s = Fin b" "cellZ s = Fin c"
      using index_finite by blast
    obtain i where i: "a = of_int i" "0 \<le> i" "i < int gs"
      using whole_in_range [of a gs] Suc.prems(3) hit(2) unfolding f by blast
    obtain j where j: "b = of_int j" "0 \<le> j" "j < int gs"
      using whole_in_range [of b gs] Suc.prems(4) hit(2) unfolding f by blast
    obtain k where k: "c = of_int k" "0 \<le> k" "k < int gs"
      using whole_in_range [of c gs] Suc.prems(5) hit(2) unfolding f by blast
    have "pos h = cellVec (i, j, k)" by (simp add: ph f i j k)
    then show ?thesis using i j k nh Suc.prems(6) by auto
  next
    case go
    from Suc.IH [OF go Suc.prems(2) cpu_advance_whole [OF Suc.prems(2-5)]]
    show ?thesis .
  qed
qed

lemma intersectVoxels_hit_cell:
  assumes "intersectVoxels ro rd grid gs = Some h"
  obtains i j k a b c where "pos h = cellVec (i, j, k)" and "normal h = cellVec (a, b, c)"
    and "0 \<le> i" "i < int gs" "0 \<le> j" "j < int gs" "0 \<le> k" "k < int gs"
    and "\<bar>a\<bar> \<le> 1" "\<bar>b\<bar> \<le> 1" "\<bar>c\<bar> \<le> 1"
proof -
  obtain r0 r1 r2 where ro: "ro = (r0, r1, r2)" by (metis prod_cases3)
  obtain stp delta s where st: "cpu_start (r0, r1, r2) rd = (stp, delta, s)"
    by (metis prod_cases3)
  with assms have lp: "cpu_loop grid gs stp delta (gs * 2) s = Some h"
    by (simp add: intersectVoxels_def Let_def ro)
  from cpu_start_state [OF st]
  have s0: "curNormal s = (Fin 0, Fin 0, Fin 0)" "cellX s = Math_floor r0"
           "cellY s = Math_floor r1" "cellZ s = Math_floor r2" by simp_all
  from cpu_loop_hit_cell [OF lp cpu_start_unit_steps [OF st]]
  have "(\<exists>i j k. pos h = cellVec (i, j, k) \<and> 0 \<le> i \<and> i < int gs \<and> 0 \<le> j \<and> j < int gs \<and>
                   0 \<le> k \<and> k < int gs) \<and> unit_normal (normal h)"
    by (simp add: s0 whole_floor unit_normal_zero)
  then show thesis unfolding unit_normal_def using that by blast
qed

lemma add_cell_normal:
  assumes "0 \<le> i" "i < 32" "0 \<le> j" "j < 32" "0 \<le> k" "k < 32"
      and "\<bar>a\<bar> \<le> 1" "\<bar>b\<bar> \<le> 1" "\<bar>c\<bar> \<le> 1"
  shows "add (cellVec (i, j, k)) (cellVec (a, b, c)) = cellVec (i + a, j + b, k + c)"
    and "neighbour (cellVec (i, j, k)) (cellVec (a, b, c)) = cellVec (i + a, j + b, k + c)"
proof -
  have "plus64 (Fin (of_int i)) (Fin (of_int a)) = Fin (of_int (i + a))"
       "plus64 (Fin (of_int j)) (Fin (of_int b)) = Fin (of_int (j + b))"
       "plus64 (Fin (of_int k)) (Fin (of_int c)) = Fin (of_int (k + c))"
    using assms by (intro plus64_ints; simp)+
  then show "add (cellVec (i, j, k)) (cellVec (a, b, c)) = cellVec (i + a, j + b, k + c)"
    by simp
  show "neighbour (cellVec (i, j, k)) (cellVec (a, b, c)) = cellVec (i + a, j + b, k + c)"
    by simp
qed

subsection \<open>The camera's own cell is never written\<close>

text \<open>
  Each component of the vector from the camera to the centre of its own cell is at most
  one half, and \<open>1 / 2\<close>, \<open>1 / 4\<close>, \<open>3 / 4\<close> and 1 are binary64 values; rounding is
  monotonic, so the computed length is at most 1.
\<close>

lemma centre_offset:
  assumes "\<lfloor>a\<rfloor> = i"
  obtains d where "minus64 (Fin (of_int i + 1 / 2)) (Fin a) = Fin d" and "- (1 / 2) \<le> d" and "d \<le> 1 / 2"
proof -
  have "- (1 / 2) \<le> of_int i + 1 / 2 - a" "of_int i + 1 / 2 - a \<le> 1 / 2"
    using assms by linarith+
  moreover have "double (- (1 / 2))" "double (1 / 2)"
    using double_halves [of "- 1"] double_halves [of 1] by simp_all
  ultimately obtain d where "round64 (of_int i + 1 / 2 - a) = Fin d" "- (1 / 2) \<le> d" "d \<le> 1 / 2"
    using round64_bounds [of "- (1 / 2)" "1 / 2" "of_int i + 1 / 2 - a"] by blast
  then show thesis using that by (simp add: minus64_Fin)
qed

lemma square_small:
  assumes "- (1 / 2) \<le> d" and "d \<le> 1 / 2"
  obtains q where "times64 (Fin d) (Fin d) = Fin q" and "0 \<le> q" and "q \<le> 1 / 4"
proof -
  have "\<bar>d\<bar> * \<bar>d\<bar> \<le> (1 / 2) * (1 / 2)" using assms by (intro mult_mono) (simp_all add: abs_le_iff)
  then have "0 \<le> d * d" "d * d \<le> 1 / 4" by simp_all
  moreover have "double (1 / 4)" using double_quarters [of 1] by simp
  ultimately obtain q where "round64 (d * d) = Fin q" "0 \<le> q" "q \<le> 1 / 4"
    using round64_bounds [OF double_zero, of "1 / 4" "d * d"] by blast
  then show thesis using that by (simp add: times64_Fin)
qed

lemma camera_cell_rejected:
  assumes "Math_floor c0 = Fin (of_int i)" "Math_floor c1 = Fin (of_int j)"
          "Math_floor c2 = Fin (of_int k)"
  shows "\<not> Fin 1 < len (sub (Fin (of_int i + 1 / 2), Fin (of_int j + 1 / 2), Fin (of_int k + 1 / 2))
                          (c0, c1, c2))"
proof -
  obtain a0 where a0: "c0 = Fin a0" "\<lfloor>a0\<rfloor> = i" using assms(1) by (cases c0) simp_all
  obtain a1 where a1: "c1 = Fin a1" "\<lfloor>a1\<rfloor> = j" using assms(2) by (cases c1) simp_all
  obtain a2 where a2: "c2 = Fin a2" "\<lfloor>a2\<rfloor> = k" using assms(3) by (cases c2) simp_all
  obtain d0 where d0: "minus64 (Fin (of_int i + 1 / 2)) (Fin a0) = Fin d0" "- (1 / 2) \<le> d0" "d0 \<le> 1 / 2"
    using centre_offset [OF a0(2)] by blast
  obtain d1 where d1: "minus64 (Fin (of_int j + 1 / 2)) (Fin a1) = Fin d1" "- (1 / 2) \<le> d1" "d1 \<le> 1 / 2"
    using centre_offset [OF a1(2)] by blast
  obtain d2 where d2: "minus64 (Fin (of_int k + 1 / 2)) (Fin a2) = Fin d2" "- (1 / 2) \<le> d2" "d2 \<le> 1 / 2"
    using centre_offset [OF a2(2)] by blast
  obtain q0 where q0: "times64 (Fin d0) (Fin d0) = Fin q0" "0 \<le> q0" "q0 \<le> 1 / 4"
    using square_small [OF d0(2,3)] by blast
  obtain q1 where q1: "times64 (Fin d1) (Fin d1) = Fin q1" "0 \<le> q1" "q1 \<le> 1 / 4"
    using square_small [OF d1(2,3)] by blast
  obtain q2 where q2: "times64 (Fin d2) (Fin d2) = Fin q2" "0 \<le> q2" "q2 \<le> 1 / 4"
    using square_small [OF d2(2,3)] by blast
  have dh: "double (1 / 2)" using double_halves [of 1] by simp
  have dq: "double (3 / 4)" using double_quarters [of 3] by simp
  obtain u where u: "round64 (q0 + q1) = Fin u" "0 \<le> u" "u \<le> 1 / 2"
    using round64_bounds [OF double_zero dh, of "q0 + q1"] q0(2,3) q1(2,3) by auto
  obtain v where v: "round64 (u + q2) = Fin v" "0 \<le> v" "v \<le> 3 / 4"
    using round64_bounds [OF double_zero dq, of "u + q2"] u(2,3) q2(2,3) by auto
  have "sqrt v \<le> sqrt 1" using v(3) by (intro real_sqrt_le_mono) simp
  then have "0 \<le> sqrt v" "sqrt v \<le> 1" using v(2) by simp_all
  then obtain l where l: "round64 (sqrt v) = Fin l" "l \<le> 1"
    using round64_bounds [OF double_zero double_one, of "sqrt v"] by blast
  have "len (sub (Fin (of_int i + 1 / 2), Fin (of_int j + 1 / 2), Fin (of_int k + 1 / 2))
                 (c0, c1, c2)) = Fin l"
    using v(2)
    by (simp add: a0(1) a1(1) a2(1) len_def d0(1) d1(1) d2(1) q0(1) q1(1) q2(1)
                  plus64_Fin u(1) v(1) sqrt64_Fin l(1))
  then show ?thesis using l(2) by simp
qed

lemma block_write_cases:
  assumes "tool s = BLOCK"
  shows "gridData (handleBlockAction s hitPos nrm) =
           (if inGrid (add hitPos nrm) \<and>
               Fin 1.0 < len (sub (add (add hitPos nrm) (Fin 0.5, Fin 0.5, Fin 0.5)) (cameraPos s))
            then ta_set (gridData s) (idx (add hitPos nrm)) (blockId s) else gridData s)"
    and "lights (handleBlockAction s hitPos nrm) = lights s"
  using assms by (simp_all add: handleBlockAction_def Let_def inGrid_def)

lemma delete_write_cases:
  assumes "tool s = DELETE"
  shows "gridData (handleBlockAction s hitPos nrm) =
           (if Fin 0 \<le> idx hitPos \<and> idx hitPos < Fin (real (length (gridData s)))
            then ta_set (gridData s) (idx hitPos) 0 else gridData s)"
    and "lights (handleBlockAction s hitPos nrm) = lights s"
  using assms by (simp_all add: handleBlockAction_def Let_def)

lemma ta_set_changed:
  assumes "ta_set g i v \<noteq> g"
  obtains k where "array_index (length g) i = Some k" and "ta_set g i v = g[k := v]"
  using assms by (auto simp: ta_set_def split: option.splits)

lemma array_index_bounds:
  "array_index n i = Some k \<Longrightarrow> Fin 0 \<le> i \<and> i < Fin (real n) \<and> k < n"
  by (cases i) (auto split: if_splits simp: Ints_def)

lemma exact_index_cell:
  "Fin (of_int tx) + Fin (of_int ty) * Fin (real GRID_SIZE)
     + Fin (of_int tz) * Fin (real GRID_SIZE) * Fin (real GRID_SIZE) =
   Fin (of_int (tx + ty * 32 + tz * 1024))"
  by (simp add: GRID_SIZE_def)

lemma passed_cell:
  assumes "0 \<le> tx" "tx < 32" "0 \<le> ty" "ty < 32" "0 \<le> tz" "tz < 32"
      and "passed g GRID_SIZE (cellVec (tx, ty, tz))"
      and "array_index (length g) (Fin (of_int (tx + ty * 32 + tz * 1024))) = Some m"
  shows "g ! m = 0"
proof -
  have nb: "\<not> (Fin (of_int tx) < Fin 0 \<or> Fin (real GRID_SIZE) \<le> Fin (of_int tx) \<or>
                 Fin (of_int ty) < Fin 0 \<or> Fin (real GRID_SIZE) \<le> Fin (of_int ty) \<or>
                 Fin (of_int tz) < Fin 0 \<or> Fin (real GRID_SIZE) \<le> Fin (of_int tz))"
    using assms(1-6) by (simp add: GRID_SIZE_def)
  from assms(7) have "case ta_get g (Fin (of_int (tx + ty * 32 + tz * 1024))) of
                        None \<Rightarrow> True | Some voxel \<Rightarrow> \<not> 0 < voxel"
    unfolding cellVec.simps passed.simps exact_index_cell using nb by (simp only: if_False)
  then have "\<not> 0 < g ! m" unfolding ta_get_def assms(8) by simp
  then show ?thesis by (simp add: word_gt_0)
qed

text \<open>
  C9. A click with the Block tool that changes the grid has written the cell in front of
  the face that was hit. A Delete edit on that cell gives back the grid as it was before the
  click, and it adds no light; the click added none either.
\<close>

theorem place_then_delete_restores:
  assumes blk: "tool s = BLOCK"
      and hit: "intersectVoxels (cameraPos s) (camDir s) (gridData s) GRID_SIZE = Some hit"
      and placed: "gridData (performRaycastAction s) \<noteq> gridData s"
  shows "gridData (handleBlockAction ((performRaycastAction s)\<lparr>tool := DELETE\<rparr>)
                     (add (pos hit) (normal hit)) nrm) = gridData s \<and>
         lights (handleBlockAction ((performRaycastAction s)\<lparr>tool := DELETE\<rparr>)
                     (add (pos hit) (normal hit)) nrm) = lights (performRaycastAction s) \<and>
         lights (performRaycastAction s) = lights s"
proof -
  let ?g = "gridData s"
  let ?T = "add (pos hit) (normal hit)"
  let ?s1 = "performRaycastAction s"
  have light_grid: "gridData (handleLightClick s i) = gridData s" for i
    by (simp add: handleLightClick_def)
  have s1: "?s1 = handleBlockAction s (pos hit) (normal hit)"
    using placed hit light_grid
    by (auto simp: performRaycastAction_def Let_def split: prod.splits if_splits)
  have g1: "gridData ?s1 =
           (if inGrid ?T \<and> Fin 1.0 < len (sub (add ?T (Fin 0.5, Fin 0.5, Fin 0.5)) (cameraPos s))
            then ta_set ?g (idx ?T) (blockId s) else ?g)"
    and l1: "lights ?s1 = lights s"
    unfolding s1 using block_write_cases [OF blk] by blast+
  from placed g1 have inb: "inGrid ?T"
    and far: "Fin 1.0 < len (sub (add ?T (Fin 0.5, Fin 0.5, Fin 0.5)) (cameraPos s))"
    and wr: "gridData ?s1 = ta_set ?g (idx ?T) (blockId s)"
    by (auto split: if_splits)
  from placed wr obtain m where m: "array_index (length ?g) (idx ?T) = Some m"
    and gm: "gridData ?s1 = ?g[m := blockId s]"
    using ta_set_changed [of ?g "idx ?T" "blockId s"] by metis
  obtain c0 c1 c2 where cam: "cameraPos s = (c0, c1, c2)" by (metis prod_cases3)
  from intersectVoxels_hit_cell [OF hit]
  obtain i j k a b c where cell: "pos hit = cellVec (i, j, k)" and nrm: "normal hit = cellVec (a, b, c)"
    and rng': "0 \<le> i" "i < int GRID_SIZE" "0 \<le> j" "j < int GRID_SIZE"
              "0 \<le> k" "k < int GRID_SIZE"
    and unit: "\<bar>a\<bar> \<le> 1" "\<bar>b\<bar> \<le> 1" "\<bar>c\<bar> \<le> 1"
    by blast
  have rng: "0 \<le> i" "i < 32" "0 \<le> j" "j < 32" "0 \<le> k" "k < 32"
    using rng' by (simp_all add: GRID_SIZE_def)
  define tx ty tz where "tx = i + a" and "ty = j + b" and "tz = k + c"
  have T: "?T = cellVec (tx, ty, tz)"
    and N: "neighbour (pos hit) (normal hit) = cellVec (tx, ty, tz)"
    unfolding cell nrm tx_def ty_def tz_def by (rule add_cell_normal [OF rng unit])+
  have trng: "0 \<le> tx" "tx < 32" "0 \<le> ty" "ty < 32" "0 \<le> tz" "tz < 32"
    using inb unfolding T by (simp_all add: inGrid_def GRID_SIZE_def)
  have ctr: "add ?T (Fin 0.5, Fin 0.5, Fin 0.5) =
               (Fin (of_int tx + 1 / 2), Fin (of_int ty + 1 / 2), Fin (of_int tz + 1 / 2))"
    unfolding T using trng by (simp add: cell_centre)
  have ix: "idx ?T = Fin (of_int (tx + ty * 32 + tz * 1024))"
    unfolding T by (rule idx_cell [OF trng])
  have "passed ?g GRID_SIZE (cellVec (tx, ty, tz))"
  proof -
    from intersectVoxels_hit_prev [OF hit [unfolded cam]]
    consider (start) "normal hit = (Fin 0, Fin 0, Fin 0)"
                     "pos hit = (Math_floor c0, Math_floor c1, Math_floor c2)"
      | (moved) "passed ?g GRID_SIZE (neighbour (pos hit) (normal hit))" by blast
    then show ?thesis
    proof cases
      case start
      from start(1) have "a = 0" "b = 0" "c = 0" unfolding nrm by simp_all
      then have t: "tx = i" "ty = j" "tz = k" by (simp_all add: tx_def ty_def tz_def)
      from start(2) have "Math_floor c0 = Fin (of_int i)" "Math_floor c1 = Fin (of_int j)"
                         "Math_floor c2 = Fin (of_int k)" unfolding cell by simp_all
      from camera_cell_rejected [OF this] far show ?thesis
        unfolding ctr cam t by simp
    next
      case moved
      then show ?thesis unfolding N .
    qed
  qed
  then have zero: "?g ! m = 0"
    using m unfolding ix by (rule passed_cell [OF trng])
  have mb: "Fin 0 \<le> idx ?T" "idx ?T < Fin (real (length ?g))" "m < length ?g"
    using array_index_bounds [OF m] by blast+
  let ?s2 = "handleBlockAction (?s1\<lparr>tool := DELETE\<rparr>) ?T nrm"
  have "gridData ?s2 = ta_set (?g[m := blockId s]) (idx ?T) 0"
    using delete_write_cases(1) [of "?s1\<lparr>tool := DELETE\<rparr>" ?T nrm] mb gm by simp
  also have "\<dots> = ?g[m := blockId s, m := 0]"
    using m by (simp add: ta_set_def)
  also have "\<dots> = ?g" using list_update_id [of ?g m] zero by simp
  finally have g2: "gridData ?s2 = ?g" .
  have l2: "lights ?s2 = lights ?s1"
    using delete_write_cases(2) [of "?s1\<lparr>tool := DELETE\<rparr>" ?T nrm] by simp
  show ?thesis using g2 l2 l1 by simp
qed

lemma sceneBlock_hit:
  "intersectVoxels (cameraPos sceneBlock) (camDir sceneBlock) (gridData sceneBlock) GRID_SIZE =
     Some \<lparr>pos = (Fin 8, Fin 0, Fin 8), normal = (Fin 0, Fin 0, Fin (- 1)), voxelId = 15,
           t = Fin 3.5\<rparr>"
  unfolding sceneBlock_fields GRID_SIZE_def
  by (simp add: scene_simps sceneBlock_grid)

text \<open>
  Neither light of the scene is in the line of sight: for both markers the discriminant of
  the sphere test is negative, whatever the rounding of the radius does.
\<close>

lemma sceneBlock_first_light:
  "intersectSphere (Fin 8.5, Fin 0.5, Fin 4.5) (Fin 0, Fin 0, Fin 1) (Fin 16, Fin 12, Fin 16)
     (literal 0.2) = None"
proof -
  obtain v where v: "times64 (literal 0.2) (literal 0.2) = Fin v" "0 \<le> v" "v \<le> 1"
    by (rule marker_radius_square)
  have dn: "double 319" "double 321" "double (- 189)" "double (- 186)"
    by (simp_all add: double_numeral double_neg_numeral)
  obtain c where c: "round64 (1283 / 4 - v) = Fin c" "319 \<le> c" "c \<le> 321"
    using round64_bounds [OF dn(1,2), of "1283 / 4 - v"] v(2,3) by auto
  obtain h where h: "round64 (529 / 4 - c) = Fin h" "h \<le> - 186"
    using round64_bounds [OF dn(3,4), of "529 / 4 - c"] c(2,3) by auto
  show ?thesis
    using h(2) by (simp add: intersectSphere_def Let_def round64_simps v(1) [simplified] c(1) h(1))
qed

lemma sceneBlock_second_light:
  "intersectSphere (Fin 8.5, Fin 0.5, Fin 4.5) (Fin 0, Fin 0, Fin 1) (Fin 8, Fin 5, Fin 8)
     (literal 0.2) = None"
proof -
  obtain v where v: "times64 (literal 0.2) (literal 0.2) = Fin v" "0 \<le> v" "v \<le> 1"
    by (rule marker_radius_square)
  have dn: "double 31" "double 33" "double (- 21)" "double (- 18)"
    by (simp_all add: double_numeral double_neg_numeral)
  obtain c where c: "round64 (131 / 4 - v) = Fin c" "31 \<le> c" "c \<le> 33"
    using round64_bounds [OF dn(1,2), of "131 / 4 - v"] v(2,3) by auto
  obtain h where h: "round64 (49 / 4 - c) = Fin h" "h \<le> - 18"
    using round64_bounds [OF dn(3,4), of "49 / 4 - c"] c(2,3) by auto
  show ?thesis
    using h(2) by (simp add: intersectSphere_def Let_def round64_simps v(1) [simplified] c(1) h(1))
qed

lemma sceneBlock_no_light:
  "closestLight (cameraPos sceneBlock) (camDir sceneBlock) 0 (lights sceneBlock) (- 1, Fin 100)
     = (- 1, Fin 100)"
  unfolding sceneBlock_fields
  using sceneBlock_first_light sceneBlock_second_light by (simp add: sceneBlock_def)

lemma sceneBlock_edit:
  "handleBlockAction sceneBlock (Fin 8, Fin 0, Fin 8) (Fin 0, Fin 0, Fin (- 1)) =
     sceneBlock\<lparr>gridData := emptyGrid[8200 := 15, 7176 := 1]\<rparr>"
proof -
  have s: "sqrt 9 = 3" using real_sqrt_abs [of 3] by simp
  have "ta_set (emptyGrid[8200 := 15]) (Fin 7176) 1 = emptyGrid[8200 := 15, 7176 := 1]"
    by (simp add: ta_set_def length_emptyGrid)
  then show ?thesis
    by (simp add: handleBlockAction_def sceneBlock_def Let_def GRID_SIZE_def blockId_def
                  len_def round64_simps s)
qed

lemma sceneBlock_click:
  "performRaycastAction sceneBlock = sceneBlock\<lparr>gridData := emptyGrid[8200 := 15, 7176 := 1]\<rparr>"
  by (simp add: performRaycastAction_def sceneBlock_no_light sceneBlock_hit sceneBlock_edit)

theorem place_then_delete_restores_witness:
  "tool sceneBlock = BLOCK \<and>
   gridData (performRaycastAction sceneBlock) = emptyGrid[8200 := 15, 7176 := 1] \<and>
   gridData (performRaycastAction sceneBlock) \<noteq> gridData sceneBlock \<and>
   gridData (handleBlockAction ((performRaycastAction sceneBlock)\<lparr>tool := DELETE\<rparr>)
               (Fin 8, Fin 0, Fin 7) (Fin 0, Fin 0, Fin 0)) = gridData sceneBlock \<and>
   lights (handleBlockAction ((performRaycastAction sceneBlock)\<lparr>tool := DELETE\<rparr>)
               (Fin 8, Fin 0, Fin 7) (Fin 0, Fin 0, Fin 0)) = lights sceneBlock"
proof -
  have ch: "gridData (performRaycastAction sceneBlock) \<noteq> gridData sceneBlock"
  proof
    assume "gridData (performRaycastAction sceneBlock) = gridData sceneBlock"
    then have "emptyGrid[8200 := 15, 7176 := 1] ! 7176 = emptyGrid[8200 := 15] ! 7176"
      by (simp add: sceneBlock_click sceneBlock_fields)
    moreover have "emptyGrid[8200 := 15, 7176 := 1] ! 7176 = 1" "emptyGrid[8200 := 15] ! 7176 = 0"
      by (simp_all add: emptyGrid_def)
    ultimately show False by simp
  qed
  from place_then_delete_restores [OF sceneBlock_fields(1) sceneBlock_hit ch, of "(Fin 0, Fin 0, Fin 0)"]
  show ?thesis
    using ch by (simp add: sceneBlock_fields(1) sceneBlock_click round64_simps)
qed

section \<open>The CPU and the GPU traversal\<close>

subsection \<open>The invariant\<close>
















subsection \<open>A larger budget keeps the hits of a smaller one\<close>


subsection \<open>Rays on which nothing is rounded\<close>


lemma single_double: "single r \<Longrightarrow> double r"
  unfolding single_def by (auto intro!: double_dyadic)




















lemma gridAbove_simps:
  "length gridAbove = 32768" "gridAbove ! 0 = 0" "gridAbove ! 1024 = 9"
  by (simp_all add: gridAbove_def emptyGrid_def)

text \<open>
  The length of the direction matters as well: both traversals compare the ray parameter,
  not a length, with their cut-off. For a short direction the shader's \<^verbatim>\<open>MAX_DIST = 100\<close> is
  reached after one step, while the CPU traversal goes on and hits.
\<close>

lemma short_direction_breaks_parity:
  "intersectVoxels (Fin 0.5, Fin 0.5, Fin 0.5) (Fin (1/256), Fin (1/256), Fin (1/256)) gridAbove 32 =
     Some \<lparr>pos = (Fin 0, Fin 0, Fin 1), normal = (Fin 0, Fin 0, Fin (- 1)), voxelId = 9,
           t = Fin 128\<rparr> \<and>
   gpu_march 64 gridAbove (Fin 0.5, Fin 0.5, Fin 0.5) (Fin (1/256), Fin (1/256), Fin (1/256)) = None"
  by (simp add: scene_simps gridAbove_simps)

end
